theory Spec2Isabelle
  imports Main "HOL-Library.Sublist"
begin

section \<open>Strings as the import pipeline uses them\<close>

text \<open>
  Python strings are modelled as \<open>string\<close> (a list of bytes, UTF-8 for the few
  non-ASCII symbols of the messages). \<open>str.strip\<close> removes the ASCII white space
  characters from both ends and \<open>str.lower\<close> maps the ASCII capitals; characters
  beyond ASCII are left alone by both.
\<close>

definition isspace :: "char \<Rightarrow> bool" where
  "isspace c = (c \<in> set [CHR '' '', CHR 0x09, CHR 0x0A, CHR 0x0B, CHR 0x0C, CHR 0x0D,
                          CHR 0x1C, CHR 0x1D, CHR 0x1E, CHR 0x1F])"

definition strip :: "string \<Rightarrow> string" where
  "strip s = rev (dropWhile isspace (rev (dropWhile isspace s)))"

definition lower_char :: "char \<Rightarrow> char" where
  "lower_char c =
     (case map_of (zip ''ABCDEFGHIJKLMNOPQRSTUVWXYZ'' ''abcdefghijklmnopqrstuvwxyz'') c of
        Some d \<Rightarrow> d
      | None \<Rightarrow> c)"

definition lower :: "string \<Rightarrow> string" where
  "lower s = map lower_char s"

text \<open>\<open>sep.join(xs)\<close>.\<close>

fun join :: "string \<Rightarrow> string list \<Rightarrow> string" where
  "join sep [] = []"
| "join sep [x] = x"
| "join sep (x # y # ys) = x @ sep @ join sep (y # ys)"

text \<open>Decimal digits of a natural number, and \<open>str\<close> of a Python integer.\<close>

definition digit :: "nat \<Rightarrow> char" where
  "digit d = ''0123456789'' ! d"

fun str_nat :: "nat \<Rightarrow> string" where
  "str_nat n = (if n < 10 then [digit n] else str_nat (n div 10) @ [digit (n mod 10)])"

declare str_nat.simps [simp del]

definition str_int :: "int \<Rightarrow> string" where
  "str_int i = (if i < 0 then CHR ''-'' # str_nat (nat (- i)) else str_nat (nat i))"

text \<open>
  The format \<open>{n:,}\<close>: the decimal digits in groups of three from the right,
  separated by commas, after the sign.
\<close>

fun group3 :: "string \<Rightarrow> string" where
  "group3 (a # b # c # d # ds) = a # b # c # CHR '','' # group3 (d # ds)"
| "group3 ds = ds"

definition commas_nat :: "nat \<Rightarrow> string" where
  "commas_nat n = rev (group3 (rev (str_nat n)))"

definition commas_int :: "int \<Rightarrow> string" where
  "commas_int i = (if i < 0 then CHR ''-'' # commas_nat (nat (- i)) else commas_nat (nat i))"

section \<open>Data model\<close>

text \<open>
  The three tables of \<open>models.py\<close>. The job status is a string column that only ever
  holds one of six values. Server-generated columns that the import never reads (the integer
  primary keys, \<open>created_at\<close>) are left out. Time stamps are natural numbers.
\<close>

datatype status = Pending | Parsing | Importing | Completed | Completed_with_errors | Failed

record import_job =
  status :: status
  total_rows :: int
  processed_rows :: int
  error_message :: "string option"
  completed_at :: "nat option"

record product =
  sku :: string
  name :: string
  description :: string
  active :: bool
  updated_at :: "nat option"

record webhook =
  url :: string
  event_type :: string
  enabled :: bool

text \<open>The job row that \<open>import_products\<close> inserts: status pending, column defaults.\<close>

definition new_import_job :: import_job where
  "new_import_job =
     \<lparr>status = Pending, total_rows = 0, processed_rows = 0,
      error_message = None, completed_at = None\<rparr>"

definition terminal :: "status \<Rightarrow> bool" where
  "terminal s = (s = Completed \<or> s = Completed_with_errors \<or> s = Failed)"

text \<open>
  A cell of the data frame that \<open>pandas.read_csv\<close> returns: the missing value
  \<open>NaN\<close>, or a value given by its \<open>str()\<close> text. A row is the list of its cells in
  column order.
\<close>

datatype cell = NaN | Val string

datatype read_csv_result =
    UnicodeDecodeError
  | ParseException string
  | DataFrame "string list" "cell list list"

text \<open>\<open>row.get(key)\<close>: the cell under the column \<open>key\<close>, if the frame has that column.\<close>

definition row_get :: "string list \<Rightarrow> cell list \<Rightarrow> string \<Rightarrow> cell option" where
  "row_get cols row key = map_of (zip cols row) key"

text \<open>\<open>str(row.get(key, default))\<close>; \<open>str\<close> of the missing value is \<open>nan\<close>.\<close>

definition str_get :: "cell option \<Rightarrow> string \<Rightarrow> string" where
  "str_get c dflt = (case c of None \<Rightarrow> dflt | Some NaN \<Rightarrow> ''nan'' | Some (Val s) \<Rightarrow> s)"

record payload =
  pl_job_id :: string
  pl_count :: int
  pl_created :: int
  pl_updated :: int
  pl_errors :: int

text \<open>
  One post to a listener: its address, the event and the data of the envelope, and
  whether the post returned (\<open>d_ok\<close>) or raised. The time stamp of the envelope is left
  out.
\<close>

record delivery =
  d_url :: string
  d_event :: string
  d_data :: payload
  d_ok :: bool

section \<open>The environment of one run\<close>

text \<open>
  Everything the run reads from outside is a field of the environment, so that every
  exception the code guards against is a branch of the model:
  the job row and the catalog as stored, the staged file and what \<open>read_csv\<close> makes of
  it, the outcome of the n-th \<open>db.commit()\<close> of the run (\<open>None\<close>: it succeeds,
  \<open>Some e\<close>: it raises an exception whose \<open>str\<close> is \<open>e\<close>), whether the product lookup
  of the row with index \<open>idx\<close> raises, the value of the k-th \<open>datetime.utcnow()\<close>,
  whether \<open>os.remove\<close> and \<open>trigger_webhooks.delay\<close> raise, the stored webhooks and the
  outcome of the query and of each post, and the text of \<open>traceback.format_exc()\<close>.

  \<open>database.py\<close>, which configures \<open>SessionLocal\<close>, is not among the sources:
  whether a query sees the rows added to the session since the last commit is the
  session's \<open>autoflush\<close> setting, taken as the parameter \<open>autoflush\<close>.
\<close>

record env =
  job_id :: string
  file_path :: string
  stored_job :: "import_job option"
  stored_products :: "product list"
  autoflush :: bool
  file_exists :: bool
  read_csv :: read_csv_result
  commit_error :: "nat \<Rightarrow> string option"
  query_error :: "nat \<Rightarrow> string option"
  utcnow :: "nat \<Rightarrow> nat"
  remove_error :: "string option"
  delay_raises :: bool
  stored_webhooks :: "webhook list"
  webhook_query_error :: "string option"
  post_error :: "string \<Rightarrow> string option"
  format_exc :: "string \<Rightarrow> string"

section \<open>The state of one run\<close>

text \<open>
  The session holds the job object and its view of the catalog (\<open>job\<close>, \<open>products\<close>);
  the database holds what was committed (\<open>db_job\<close>, \<open>db_products\<close>). \<open>db_trace\<close>
  lists the job rows committed so far, oldest first, starting with the stored row: it is
  what a reader of the job table can have seen. \<open>ncommit\<close> and \<open>nclock\<close> count
  the commits and the clock readings made. The counters and \<open>errors\<close> are the local
  variables of \<open>process_csv_import_sync\<close>. \<open>queued\<close> are the calls of
  \<open>trigger_webhooks.delay\<close> that returned, \<open>inline\<close> the calls of
  \<open>trigger_webhooks_sync\<close> made by the run itself, \<open>attempts\<close> the posts of those
  calls, \<open>log\<close> the lines written to the logger.
\<close>

record state =
  job :: import_job
  products :: "product list"
  db_job :: import_job
  db_products :: "product list"
  db_trace :: "import_job list"
  ncommit :: nat
  nclock :: nat
  processed_count :: int
  created_count :: int
  updated_count :: int
  error_count :: int
  errors :: "string list"
  file_present :: bool
  queued :: "(string \<times> payload) list"
  inline :: "(string \<times> payload) list"
  attempts :: "delivery list"
  log :: "string list"

definition init_state :: "env \<Rightarrow> import_job \<Rightarrow> state" where
  "init_state env j =
     \<lparr>job = j, products = stored_products env, db_job = j,
      db_products = stored_products env, db_trace = [j], ncommit = 0, nclock = 0,
      processed_count = 0, created_count = 0, updated_count = 0, error_count = 0,
      errors = [], file_present = file_exists env, queued = [], inline = [],
      attempts = [], log = []\<rparr>"

text \<open>\<open>datetime.utcnow()\<close>: the current reading, and the state after it.\<close>

definition now :: "env \<Rightarrow> state \<Rightarrow> nat" where
  "now env st = utcnow env (nclock st)"

definition tick :: "state \<Rightarrow> state" where
  "tick st = st\<lparr>nclock := Suc (nclock st)\<rparr>"

text \<open>
  \<open>db.commit()\<close>: on success the database takes the session's job and products; on
  failure nothing is stored and the exception's text is returned.
  \<open>db.rollback()\<close>: the session goes back to what was committed.
\<close>

definition commit :: "env \<Rightarrow> state \<Rightarrow> string option \<times> state" where
  "commit env st =
     (case commit_error env (ncommit st) of
        None \<Rightarrow>
          (None, st\<lparr>db_job := job st, db_products := products st,
                     db_trace := db_trace st @ [job st], ncommit := Suc (ncommit st)\<rparr>)
      | Some e \<Rightarrow> (Some e, st\<lparr>ncommit := Suc (ncommit st)\<rparr>))"

definition rollback :: "state \<Rightarrow> state" where
  "rollback st = st\<lparr>job := db_job st, products := db_products st\<rparr>"

section \<open>Row processing (tasks.py, lines 125 to 192)\<close>

text \<open>\<open>errors.append(error_msg); error_count += 1\<close>\<close>

definition record_error :: "string \<Rightarrow> state \<Rightarrow> state" where
  "record_error error_msg st =
     st\<lparr>errors := errors st @ [error_msg], error_count := error_count st + 1\<rparr>"

text \<open>The row number of the messages: \<open>idx + 2\<close>.\<close>

definition row_no :: "nat \<Rightarrow> string" where
  "row_no idx = str_int (int idx + 2)"

text \<open>\<open>not s or s.lower() in ['nan', 'none', '']\<close>\<close>

definition null_token :: "string \<Rightarrow> bool" where
  "null_token s = (s = [] \<or> lower s \<in> set [''nan'', ''none'', ''''])"

text \<open>
  The rows that the product query can see: all rows of the session when it flushes
  before a query, otherwise all but those added since the last commit (the additions are
  at the end of the session's list).
\<close>

definition visible :: "env \<Rightarrow> state \<Rightarrow> product list" where
  "visible env st =
     (if autoflush env then products st else take (length (db_products st)) (products st))"

fun first_index :: "('a \<Rightarrow> bool) \<Rightarrow> 'a list \<Rightarrow> nat option" where
  "first_index P [] = None"
| "first_index P (x # xs) = (if P x then Some 0 else map_option Suc (first_index P xs))"

text \<open>
  Lines 151 to 171: the query \<open>func.lower(Product.sku) == sku_lower\<close>, \<open>.first()\<close>,
  then the update of the row found or the insertion of a new one.
\<close>

definition upsert :: "env \<Rightarrow> string \<Rightarrow> string \<Rightarrow> string \<Rightarrow> string \<Rightarrow> state \<Rightarrow> state" where
  "upsert env sku_s sku_lower name_s description_s st =
     (case first_index (\<lambda>p. lower (sku p) = sku_lower) (visible env st) of
        Some k \<Rightarrow>
          (tick st)\<lparr>products := (products st)[k := (products st ! k)
                       \<lparr>name := name_s, description := description_s,
                        updated_at := Some (now env st)\<rparr>],
                    updated_count := updated_count st + 1\<rparr>
      | None \<Rightarrow>
          st\<lparr>products := products st @
                 [\<lparr>sku = sku_s, name = name_s, description = description_s,
                   active = True, updated_at = None\<rparr>],
             created_count := created_count st + 1\<rparr>)"

text \<open>
  Lines 174 to 184: the row is counted, and every fiftieth counted row commits; a commit
  that raises is rolled back and recorded as an error.
\<close>

definition count_row :: "env \<Rightarrow> nat \<Rightarrow> state \<Rightarrow> state" where
  "count_row env idx st =
     (let st2 = st\<lparr>processed_count := processed_count st + 1\<rparr> in
      if processed_count st2 mod 50 = 0 then
        (case commit env st2 of
           (None, st3) \<Rightarrow> st3
         | (Some e, st3) \<Rightarrow>
             record_error (''Database error at row '' @ row_no idx @ '': '' @ e)
               (rollback st3))
      else st2)"

text \<open>
  The body of the loop over the rows of a chunk. Every exception of the body is caught by
  its handler (line 187), so the result is always a state. The only statement of the
  body that can raise outside the guarded commit is the product query.
\<close>

definition process_row :: "env \<Rightarrow> string list \<Rightarrow> nat \<Rightarrow> cell list \<Rightarrow> state \<Rightarrow> state" where
  "process_row env cols idx row st =
     (let sku_s = strip (str_get (row_get cols row ''sku'') '''') in
      if null_token sku_s then
        record_error (''Row '' @ row_no idx @ '': Empty or invalid SKU'') st
      else
        let sku_lower = lower sku_s;
            name_s = strip (str_get (row_get cols row ''name'') '''');
            description_s =
              (case row_get cols row ''description'' of
                 Some (Val d) \<Rightarrow> strip d
               | _ \<Rightarrow> '''')
        in
        if null_token name_s then
          record_error (''Row '' @ row_no idx @ '' (SKU: '' @ sku_s @
                        ''): Missing or invalid product name'') st
        else
          (case query_error env idx of
             Some e \<Rightarrow>
               record_error (''Row '' @ row_no idx @ '' (SKU: '' @
                             str_get (row_get cols row ''sku'') ''N/A'' @ ''): '' @ e) st
           | None \<Rightarrow>
               count_row env idx (upsert env sku_s sku_lower name_s description_s st)))"

text \<open>\<open>for idx, row in chunk.iterrows()\<close>, the chunk starting at index \<open>idx\<close>.\<close>

fun process_rows :: "env \<Rightarrow> string list \<Rightarrow> nat \<Rightarrow> cell list list \<Rightarrow> state \<Rightarrow> state" where
  "process_rows env cols idx [] st = st"
| "process_rows env cols idx (row # rest) st =
     process_rows env cols (Suc idx) rest (process_row env cols idx row st)"

section \<open>Chunks (lines 112 to 210)\<close>

definition chunk_size :: nat where
  "chunk_size = 100"

text \<open>
  One turn of \<open>for i in range(0, total_rows, chunk_size)\<close>: the rows of the chunk, the
  guarded commit of line 196, the progress of line 206 and its commit of line 207,
  which is not guarded: when it raises, the exception leaves the loop.
\<close>

definition process_chunk ::
  "env \<Rightarrow> string list \<Rightarrow> cell list list \<Rightarrow> nat \<Rightarrow> state \<Rightarrow> string option \<times> state" where
  "process_chunk env cols rows i st =
     (let chunk = take chunk_size (drop i rows);
          st1 = process_rows env cols i chunk st;
          st2 = (case commit env st1 of
                   (None, s) \<Rightarrow> s
                 | (Some e, s) \<Rightarrow>
                     (rollback s)
                       \<lparr>errors := errors s @
                          [''Failed to commit chunk at row '' @ str_int (int i) @ '': '' @ e],
                        error_count := error_count s + (int chunk_size - processed_count s)\<rparr>);
          st3 = st2\<lparr>job := (job st2)
                  \<lparr>processed_rows := min (int i + int chunk_size) (int (length rows))\<rparr>\<rparr>
      in commit env st3)"

fun chunk_loop ::
  "env \<Rightarrow> string list \<Rightarrow> cell list list \<Rightarrow> nat list \<Rightarrow> state \<Rightarrow> string option \<times> state" where
  "chunk_loop env cols rows [] st = (None, st)"
| "chunk_loop env cols rows (i # rest) st =
     (case process_chunk env cols rows i st of
        (Some e, s) \<Rightarrow> (Some e, s)
      | (None, s) \<Rightarrow> chunk_loop env cols rows rest s)"

text \<open>\<open>range(0, n, k)\<close> as a list.\<close>

definition range_step :: "nat \<Rightarrow> nat \<Rightarrow> nat list" where
  "range_step n k = map (\<lambda>j. j * k) [0 ..< (n + k - 1) div k]"

section \<open>The terminal status (lines 220 to 257)\<close>

text \<open>The symbols of the messages, as their UTF-8 bytes, and the line feed.\<close>

definition nl :: string where
  "nl = [CHR 0x0A]"

definition cross_mark :: string where
  "cross_mark = [CHR 0xE2, CHR 0x9D, CHR 0x8C]"

definition warning_sign :: string where
  "warning_sign = [CHR 0xE2, CHR 0x9A, CHR 0xA0, CHR 0xEF, CHR 0xB8, CHR 0x8F]"

definition check_mark :: string where
  "check_mark = [CHR 0xE2, CHR 0x9C, CHR 0x93]"

definition bullet :: string where
  "bullet = [CHR 0xE2, CHR 0x80, CHR 0xA2]"

text \<open>
  The list of examples that both summaries end with: \<open>First k errors:\<close>, the first
  \<open>n\<close> errors as bullet lines, and the count of the others when there are more.
\<close>

definition error_lines :: "nat \<Rightarrow> string list \<Rightarrow> string" where
  "error_lines n errs =
     ''First '' @ str_int (min (int n) (int (length errs))) @ '' errors:'' @ nl @
     join nl (map (\<lambda>err. bullet @ '' '' @ err) (take n errs)) @
     (if length errs > n
      then nl @ nl @ ''... and '' @ str_int (int (length errs) - int n) @ '' more errors''
      else [])"

definition failed_summary :: "state \<Rightarrow> string" where
  "failed_summary st =
     cross_mark @ '' Import Failed - No products were imported'' @ nl @ nl @
     ''Total errors: '' @ str_int (error_count st) @ nl @ nl @
     error_lines 10 (errors st)"

definition partial_summary :: "int \<Rightarrow> state \<Rightarrow> string" where
  "partial_summary n_total st =
     warning_sign @ '' Import completed with errors'' @ nl @ nl @
     ''Successfully processed: '' @ commas_int (processed_count st) @ ''/'' @
       commas_int n_total @ '' products'' @ nl @
     check_mark @ '' Created: '' @ commas_int (created_count st) @ nl @
     check_mark @ '' Updated: '' @ commas_int (updated_count st) @ nl @
     cross_mark @ '' Errors: '' @ commas_int (error_count st) @ nl @ nl @
     error_lines 5 (errors st)"

definition classify :: "env \<Rightarrow> int \<Rightarrow> state \<Rightarrow> state" where
  "classify env n_total st =
     (let j = (if error_count st > 0 \<and> processed_count st = 0 then
                 (job st)\<lparr>status := Failed, error_message := Some (failed_summary st)\<rparr>
               else if error_count st > 0 then
                 (job st)\<lparr>status := Completed_with_errors,
                          error_message := Some (partial_summary n_total st)\<rparr>
               else
                 (job st)\<lparr>status := Completed, error_message := None\<rparr>)
      in (tick st)\<lparr>job := j\<lparr>completed_at := Some (now env st)\<rparr>\<rparr>)"

section \<open>Webhooks (lines 261 to 278 and 316 to 350)\<close>

text \<open>
  The loop of \<open>trigger_webhooks_sync\<close> over the listeners: each post is attempted, a
  post that raises is logged. The result is the list of posts with their success, and
  the log.
\<close>

fun post_all ::
  "env \<Rightarrow> string \<Rightarrow> payload \<Rightarrow> webhook list \<Rightarrow> delivery list \<times> string list" where
  "post_all env ev pl [] = ([], [])"
| "post_all env ev pl (w # ws) =
     (let (att, lg) = post_all env ev pl ws in
      case post_error env (url w) of
        None \<Rightarrow> (\<lparr>d_url = url w, d_event = ev, d_data = pl, d_ok = True\<rparr> # att, lg)
      | Some e \<Rightarrow>
          (\<lparr>d_url = url w, d_event = ev, d_data = pl, d_ok = False\<rparr> # att,
           (''Webhook failed: '' @ url w @ '' - Error: '' @ e) # lg))"

definition trigger_webhooks_sync ::
  "env \<Rightarrow> string \<Rightarrow> payload \<Rightarrow> delivery list \<times> string list" where
  "trigger_webhooks_sync env ev pl =
     (case webhook_query_error env of
        Some e \<Rightarrow> ([], [''Error in webhook processing: '' @ e])
      | None \<Rightarrow>
          let webhooks = filter (\<lambda>w. event_type w = ev \<and> enabled w) (stored_webhooks env)
          in if webhooks = [] then ([], []) else post_all env ev pl webhooks)"

text \<open>
  Lines 261 to 278: the task is handed to Celery; when that raises, the listeners are
  called inline.
\<close>

definition dispatch :: "env \<Rightarrow> state \<Rightarrow> state" where
  "dispatch env st =
     (let pl = \<lparr>pl_job_id = job_id env, pl_count = processed_count st,
                pl_created = created_count st, pl_updated = updated_count st,
                pl_errors = error_count st\<rparr>
      in if delay_raises env then
           (let (att, lg) = trigger_webhooks_sync env ''product.imported'' pl
            in st\<lparr>inline := inline st @ [(''product.imported'', pl)],
                  attempts := attempts st @ att, log := log st @ lg\<rparr>)
         else st\<lparr>queued := queued st @ [(''product.imported'', pl)]\<rparr>)"

text \<open>Lines 281 to 286.\<close>

definition cleanup :: "env \<Rightarrow> state \<Rightarrow> state" where
  "cleanup env st =
     (if file_present st then
        (case remove_error env of
           None \<Rightarrow> st\<lparr>file_present := False\<rparr>
         | Some e \<Rightarrow> st\<lparr>log := log st @ [''Could not delete temp file: '' @ e]\<rparr>)
      else st)"

section \<open>The pipeline (lines 46 to 309)\<close>

text \<open>
  The four early exits (lines 59 to 64, 73 to 78, 80 to 85, 92 to 103) set the job to
  failed with a message, commit and return. A result \<open>(Some e, st)\<close> is an exception
  with text \<open>e\<close> raised in state \<open>st\<close>; \<open>(None, st)\<close> is a return.
\<close>

definition fail_job :: "env \<Rightarrow> string \<Rightarrow> state \<Rightarrow> string option \<times> state" where
  "fail_job env error_msg st =
     commit env ((tick st)\<lparr>job := (job st)
       \<lparr>status := Failed, error_message := Some error_msg,
        completed_at := Some (now env st)\<rparr>\<rparr>)"

text \<open>
  Lines 214 to 286, after the loop over the chunks: a last guarded commit, the terminal
  status, its commit (not guarded), the webhooks and the removal of the staged file.
\<close>

definition finish :: "env \<Rightarrow> int \<Rightarrow> state \<Rightarrow> string option \<times> state" where
  "finish env n_total s3 =
     (let s4 = (case commit env s3 of
                  (None, t) \<Rightarrow> t
                | (Some e, t) \<Rightarrow> t\<lparr>log := log t @ [''Final commit error: '' @ e]\<rparr>);
          s5 = classify env n_total s4
      in
      case commit env s5 of
        (Some e, s6) \<Rightarrow> (Some e, s6)
      | (None, s6) \<Rightarrow>
          let s7 = (if status (job s6) \<in> set [Completed, Completed_with_errors]
                    then dispatch env s6 else s6)
          in (None, cleanup env s7))"

text \<open>Lines 108 to 286: the run once the frame has its required columns.\<close>

definition import_rows ::
  "env \<Rightarrow> string list \<Rightarrow> cell list list \<Rightarrow> state \<Rightarrow> string option \<times> state" where
  "import_rows env cols rows st =
     (let n_total = int (length rows) in
      case commit env (st\<lparr>job := (job st)\<lparr>total_rows := n_total, status := Importing\<rparr>\<rparr>) of
        (Some e, s1) \<Rightarrow> (Some e, s1)
      | (None, s1) \<Rightarrow>
          let s2 = s1\<lparr>processed_count := 0, created_count := 0, updated_count := 0,
                      error_count := 0, errors := []\<rparr>
          in
          (case chunk_loop env cols rows (range_step (length rows) chunk_size) s2 of
             (Some e, s3) \<Rightarrow> (Some e, s3)
           | (None, s3) \<Rightarrow> finish env n_total s3))"

definition pipeline :: "env \<Rightarrow> state \<Rightarrow> string option \<times> state" where
  "pipeline env st =
     (case commit env (st\<lparr>job := (job st)\<lparr>status := Parsing\<rparr>\<rparr>) of
        (Some e, s) \<Rightarrow> (Some e, s)
      | (None, s) \<Rightarrow>
          if \<not> file_present s then
            fail_job env (''File not found at path: '' @ file_path env) s
          else
            (case read_csv env of
               UnicodeDecodeError \<Rightarrow>
                 fail_job env
                   ''CSV encoding error. Please save your CSV as UTF-8 and try again.'' s
             | ParseException e \<Rightarrow>
                 fail_job env
                   (''Failed to parse CSV file: '' @ e @ nl @ nl @ ''Please check:'' @ nl @
                    ''- File is a valid CSV'' @ nl @ ''- File is not corrupted'' @ nl @
                    ''- File encoding is UTF-8'') s
             | DataFrame cols rows \<Rightarrow>
                 let missing_cols = filter (\<lambda>col. col \<notin> set cols) [''sku'', ''name''] in
                 if missing_cols \<noteq> [] then
                   fail_job env
                     (cross_mark @ '' Missing required columns: '' @
                        join '', '' missing_cols @ nl @ nl @
                      ''Required columns: sku, name'' @ nl @
                      ''Found columns: '' @ join '', '' cols @ nl @ nl @
                      ''Please add the missing columns to your CSV and try again.'') s
                 else import_rows env cols rows s))"

text \<open>
  The handler of line 290: the job is set to failed with the exception's text and the
  traceback, and committed; when that commit raises too, this is logged.
\<close>

definition fatal_handler :: "env \<Rightarrow> string \<Rightarrow> state \<Rightarrow> state" where
  "fatal_handler env e st =
     (let st1 = (tick st)
            \<lparr>job := (job st)
               \<lparr>status := Failed,
                error_message := Some (cross_mark @ '' Fatal Error: '' @ e @ nl @ nl @
                                       ''Full error details:'' @ nl @ format_exc env e),
                completed_at := Some (now env st)\<rparr>,
             log := log st @ [''Fatal error while processing CSV import'']\<rparr>
      in case commit env st1 of
           (None, t) \<Rightarrow> t
         | (Some db_error, t) \<Rightarrow>
             t\<lparr>log := log t @ [''Failed to update job status in database: '' @ db_error]\<rparr>)"

text \<open>
  The run when the job row exists. The query for the job row, the construction of the
  session and its \<open>close\<close> are taken to return; every commit, the product query, the
  Celery call, the posts and the removal of the file may raise.
\<close>

definition run_job :: "env \<Rightarrow> import_job \<Rightarrow> state" where
  "run_job env j =
     (case pipeline env (init_state env j) of
        (None, st) \<Rightarrow> st
      | (Some e, st) \<Rightarrow> fatal_handler env e st)"

text \<open>\<open>process_csv_import_sync\<close>: nothing happens when the job row is not found.\<close>

definition process_csv_import_sync :: "env \<Rightarrow> state option" where
  "process_csv_import_sync env = map_option (run_job env) (stored_job env)"

section \<open>The progress stream (main.py, lines 102 to 140)\<close>

text \<open>
  What \<open>event_generator\<close> yields. A progress snapshot carries the status, the
  processed and total rows and the error message of the job row read; its \<open>percent\<close>
  is a floating-point quotient and is left out.
\<close>

datatype event =
    Invalid_id
  | Not_found
  | Progress status int int "string option"

text \<open>
  The loop \<open>for _ in range(600)\<close>, with \<open>n\<close> turns left at turn \<open>k\<close>. \<open>lookup k\<close>
  is the job row that the query of turn \<open>k\<close> returns. The result is the list of events
  and the number of queries made.
\<close>

fun poll :: "(nat \<Rightarrow> import_job option) \<Rightarrow> nat \<Rightarrow> nat \<Rightarrow> event list \<times> nat" where
  "poll lookup 0 k = ([], 0)"
| "poll lookup (Suc n) k =
     (case lookup k of
        None \<Rightarrow> ([Not_found], 1)
      | Some j \<Rightarrow>
          let progress = Progress (status j) (processed_rows j) (total_rows j) (error_message j)
          in if status j \<in> set [Completed, Completed_with_errors, Failed] then ([progress], 1)
             else (let (evs, q) = poll lookup n (Suc k) in (progress # evs, Suc q)))"

definition event_generator :: "string \<Rightarrow> (nat \<Rightarrow> import_job option) \<Rightarrow> event list \<times> nat" where
  "event_generator jid lookup =
     (if jid = [] \<or> length jid \<noteq> 36 then ([Invalid_id], 0) else poll lookup 600 0)"

section \<open>Notions of the specification\<close>

text \<open>A progress snapshot with a terminal status.\<close>

fun terminal_event :: "event \<Rightarrow> bool" where
  "terminal_event (Progress s p t e) = terminal s"
| "terminal_event _ = False"

text \<open>The rows counted as processed are those counted as created or as updated.\<close>

definition counts_ok :: "state \<Rightarrow> bool" where
  "counts_ok st = (processed_count st = created_count st + updated_count st)"

text \<open>No webhook task was queued and no listener was called so far.\<close>

definition undispatched :: "state \<Rightarrow> bool" where
  "undispatched st = (queued st = [] \<and> inline st = [] \<and> attempts st = [])"

text \<open>
  The state graph of a job: pending, parsing, importing, then one of the three terminal
  statuses; failed can be entered from every status that is not terminal.
\<close>

definition forward :: "status \<Rightarrow> status \<Rightarrow> bool" where
  "forward a b =
     ((a = Pending \<and> b = Parsing) \<or> (a = Parsing \<and> b = Importing) \<or>
      (a = Importing \<and> (b = Completed \<or> b = Completed_with_errors)) \<or>
      (\<not> terminal a \<and> b = Failed))"

text \<open>
  Two job rows committed one after the other: the status stays (and is not terminal) or
  moves along an edge of the graph, and the processed rows do not decrease.
\<close>

definition job_step :: "import_job \<Rightarrow> import_job \<Rightarrow> bool" where
  "job_step a b =
     ((forward (status a) (status b) \<or> (status a = status b \<and> \<not> terminal (status a))) \<and>
      processed_rows a \<le> processed_rows b)"

text \<open>
  One job row: the processed rows are between zero and the total rows, and
  \<open>completed_at\<close> is set exactly when the status is terminal.
\<close>

definition snapshot_ok :: "import_job \<Rightarrow> bool" where
  "snapshot_ok j =
     (0 \<le> processed_rows j \<and> processed_rows j \<le> total_rows j \<and>
      (completed_at j \<noteq> None \<longleftrightarrow> terminal (status j)))"

definition trace_ok :: "import_job list \<Rightarrow> bool" where
  "trace_ok tr = (successively job_step tr \<and> list_all snapshot_ok tr)"

text \<open>
  What holds between the rows and chunks of a run whose job was pending: the job object
  equals the stored job row, which is importing with \<open>n\<close> total rows and at most
  \<open>b\<close> processed rows, and the commits so far are in order.
\<close>

definition importing_inv :: "int \<Rightarrow> int \<Rightarrow> state \<Rightarrow> bool" where
  "importing_inv n b st =
     (db_job st = job st \<and> status (job st) = Importing \<and> total_rows (job st) = n \<and>
      completed_at (job st) = None \<and> 0 \<le> processed_rows (job st) \<and>
      processed_rows (job st) \<le> n \<and> processed_rows (job st) \<le> b \<and>
      db_trace st \<noteq> [] \<and> last (db_trace st) = db_job st \<and> trace_ok (db_trace st))"

text \<open>
  What holds whenever the stored job row is not terminal yet: the commits so far are in
  order, and the job object has no fewer processed rows than the stored row and no more
  than its total.
\<close>

definition open_inv :: "state \<Rightarrow> bool" where
  "open_inv st =
     (db_trace st \<noteq> [] \<and> last (db_trace st) = db_job st \<and> trace_ok (db_trace st) \<and>
      \<not> terminal (status (db_job st)) \<and>
      processed_rows (db_job st) \<le> processed_rows (job st) \<and>
      0 \<le> processed_rows (job st) \<and> processed_rows (job st) \<le> total_rows (job st))"

text \<open>
  The end of a run: the job object is terminal with \<open>completed_at\<close> set, the commits
  are in order and the job object is not behind them, and the stored job row is the job
  object when the last commit of the run succeeded, and whenever it is terminal.
\<close>

definition closed_inv :: "env \<Rightarrow> state \<Rightarrow> bool" where
  "closed_inv env st =
     (terminal (status (job st)) \<and> snapshot_ok (job st) \<and>
      processed_rows (db_job st) \<le> processed_rows (job st) \<and>
      db_trace st \<noteq> [] \<and> last (db_trace st) = db_job st \<and> trace_ok (db_trace st) \<and>
      0 < ncommit st \<and>
      (commit_error env (ncommit st - 1) = None \<longrightarrow> db_job st = job st) \<and>
      (terminal (status (db_job st)) \<longrightarrow> db_job st = job st))"

text \<open>After the commit of line 55 of a run whose job was pending.\<close>

definition parsing_inv :: "state \<Rightarrow> bool" where
  "parsing_inv st =
     (open_inv st \<and> db_job st = job st \<and> status (job st) = Parsing \<and>
      completed_at (job st) = None \<and> processed_rows (job st) = 0)"

text \<open>A job row as the upload creates it, up to its total rows.\<close>

definition fresh :: "import_job \<Rightarrow> bool" where
  "fresh j =
     (status j = Pending \<and> completed_at j = None \<and> processed_rows j = 0 \<and> 0 \<le> total_rows j)"

text \<open>The data of the \<open>product.imported\<close> event, from the counters of a state.\<close>

definition payload_of :: "env \<Rightarrow> state \<Rightarrow> payload" where
  "payload_of env st =
     \<lparr>pl_job_id = job_id env, pl_count = processed_count st, pl_created = created_count st,
      pl_updated = updated_count st, pl_errors = error_count st\<rparr>"

text \<open>
  The webhook dispatch was invoked once, for \<open>product.imported\<close> with the counters of
  the state, when the job object is completed or completed with errors, and not at all
  otherwise; every post made carries that event and data.
\<close>

definition dispatch_ok :: "env \<Rightarrow> state \<Rightarrow> bool" where
  "dispatch_ok env st =
     (queued st @ inline st =
        (if status (job st) = Completed \<or> status (job st) = Completed_with_errors
         then [(''product.imported'', payload_of env st)] else []) \<and>
      list_all (\<lambda>a. d_event a = ''product.imported'' \<and> d_data a = payload_of env st)
        (attempts st))"

text \<open>
  The job object carries the status and message that lines 220 to 254 give for the
  counters and errors of the state, with \<open>n\<close> as the total of the summary, and has
  \<open>completed_at\<close> set.
\<close>

definition classified :: "int \<Rightarrow> state \<Rightarrow> bool" where
  "classified n st =
     ((if 0 < error_count st \<and> processed_count st = 0 then
         status (job st) = Failed \<and> error_message (job st) = Some (failed_summary st)
       else if 0 < error_count st then
         status (job st) = Completed_with_errors \<and>
         error_message (job st) = Some (partial_summary n st)
       else
         status (job st) = Completed \<and> error_message (job st) = None) \<and>
      completed_at (job st) \<noteq> None)"

section \<open>Concrete runs\<close>

text \<open>
  An environment in which nothing fails: the job row is the one the upload created, the
  catalog is empty, the session flushes before queries, the staged file is there.
\<close>

definition base_env :: "read_csv_result \<Rightarrow> env" where
  "base_env frame =
     \<lparr>job_id = ''123e4567-e89b-12d3-a456-426614174000'',
      file_path = ''temp_uploads/123e4567-e89b-12d3-a456-426614174000.csv'',
      stored_job = Some new_import_job, stored_products = [], autoflush = True,
      file_exists = True, read_csv = frame, commit_error = (\<lambda>n. None),
      query_error = (\<lambda>idx. None), utcnow = (\<lambda>k. 1000 + k), remove_error = None,
      delay_raises = False, stored_webhooks = [], webhook_query_error = None,
      post_error = (\<lambda>u. None), format_exc = (\<lambda>e. ''Traceback: '' @ e)\<rparr>"

text \<open>The uploads of the test suite (\<open>test_main.py\<close>), as \<open>read_csv\<close> returns them.\<close>

definition sample_frame :: read_csv_result where
  "sample_frame =
     DataFrame [''sku'', ''name'', ''description'']
       [[Val ''PROD-001'', Val ''Product 1'', Val ''Description 1''],
        [Val ''PROD-002'', Val ''Product 2'', Val ''Description 2'']]"

definition missing_name_frame :: read_csv_result where
  "missing_name_frame =
     DataFrame [''sku'', ''description''] [[Val ''PROD-001'', Val ''No name column'']]"


text \<open>A frame with one good row, one row without sku and one without name.\<close>

definition mixed_frame :: read_csv_result where
  "mixed_frame =
     DataFrame [''sku'', ''name'']
       [[Val ''A-1'', Val ''Anvil''], [NaN, Val ''Bolt''], [Val ''C-3'', NaN]]"


text \<open>
  The commit of line 196 of the only chunk raises (it is the third commit of the run,
  after those of lines 55 and 110); every other commit succeeds.
\<close>

definition chunk_commit_fails :: env where
  "chunk_commit_fails =
     (base_env sample_frame)
       \<lparr>commit_error := (\<lambda>n. if n = 2 then Some ''connection lost'' else None)\<rparr>"

text \<open>The database is unreachable after the job row was read: every commit raises.\<close>

definition db_outage :: env where
  "db_outage = (base_env sample_frame)\<lparr>commit_error := (\<lambda>n. Some ''connection lost'')\<rparr>"

text \<open>A job that is read as importing twice and as completed from then on.\<close>

definition lookup_done :: "nat \<Rightarrow> import_job option" where
  "lookup_done k =
     (if k < 2 then Some (new_import_job\<lparr>status := Importing\<rparr>)
      else Some (new_import_job\<lparr>status := Completed\<rparr>))"

text \<open>
  The commit of line 207 of the only chunk raises (the fourth commit of the run); every
  other commit succeeds.
\<close>

definition progress_commit_fails :: env where
  "progress_commit_fails =
     (base_env sample_frame)
       \<lparr>commit_error := (\<lambda>n. if n = 3 then Some ''connection lost'' else None)\<rparr>"

text \<open>
  Celery is unreachable, so the listeners are called inline. Of the four stored webhooks
  the first two listen to \<open>product.imported\<close> and are enabled, the third is disabled
  and the fourth listens to another event; the post to the first one raises.
\<close>

definition hooks_env :: env where
  "hooks_env =
     (base_env sample_frame)
       \<lparr>delay_raises := True,
        stored_webhooks :=
          [\<lparr>url = ''https://a.example/hook'', event_type = ''product.imported'', enabled = True\<rparr>,
           \<lparr>url = ''https://webhook.site/test'', event_type = ''product.imported'', enabled = True\<rparr>,
           \<lparr>url = ''https://c.example/hook'', event_type = ''product.imported'', enabled = False\<rparr>,
           \<lparr>url = ''https://d.example/hook'', event_type = ''product.deleted'', enabled = True\<rparr>],
        post_error := (\<lambda>u. if u = ''https://a.example/hook'' then Some ''timed out'' else None)\<rparr>"

definition sample_payload :: payload where
  "sample_payload =
     \<lparr>pl_job_id = ''123e4567-e89b-12d3-a456-426614174000'', pl_count = 2, pl_created = 2,
      pl_updated = 0, pl_errors = 0\<rparr>"

section \<open>Commits and the steps of a row\<close>

lemma commit_eq:
  "commit env st =
     (commit_error env (ncommit st),
      if commit_error env (ncommit st) = None
      then st\<lparr>db_job := job st, db_products := products st,
              db_trace := db_trace st @ [job st], ncommit := Suc (ncommit st)\<rparr>
      else st\<lparr>ncommit := Suc (ncommit st)\<rparr>)"
  by (simp add: commit_def split: option.splits)

lemma commit_Some:
  "commit env st = (Some e, s) \<longleftrightarrow>
     commit_error env (ncommit st) = Some e \<and> s = st\<lparr>ncommit := Suc (ncommit st)\<rparr>"
  by (auto simp: commit_def split: option.splits)

lemma commit_None:
  "commit env st = (None, s) \<longleftrightarrow>
     commit_error env (ncommit st) = None \<and>
     s = st\<lparr>db_job := job st, db_products := products st,
            db_trace := db_trace st @ [job st], ncommit := Suc (ncommit st)\<rparr>"
  by (auto simp: commit_def split: option.splits)

lemma commit_frame:
  assumes "commit env st = (r, s)"
  shows "job s = job st" and "products s = products st" and "file_present s = file_present st"
    and "processed_count s = processed_count st" and "created_count s = created_count st"
    and "updated_count s = updated_count st" and "error_count s = error_count st"
    and "errors s = errors st" and "queued s = queued st" and "inline s = inline st"
    and "attempts s = attempts st" and "nclock s = nclock st" and "ncommit s = Suc (ncommit st)"
    and "r = commit_error env (ncommit st)"
  using assms by (auto simp: commit_def split: option.splits)
section \<open>The progress stream\<close>

lemma poll_bounds: "length (fst (poll lookup n k)) \<le> n \<and> snd (poll lookup n k) \<le> n"
  by (induction n arbitrary: k) (auto simp: Let_def case_prod_beta split: option.splits)

lemma poll_terminal_last:
  "i < length (fst (poll lookup n k)) \<Longrightarrow> terminal_event (fst (poll lookup n k) ! i)
     \<Longrightarrow> Suc i = length (fst (poll lookup n k))"
proof (induction n arbitrary: k i)
  case 0
  then show ?case by simp
next
  case (Suc n)
  show ?case
  proof (cases "lookup k")
    case None
    with Suc.prems show ?thesis by simp
  next
    case (Some j)
    show ?thesis
    proof (cases "terminal (status j)")
      case True
      with Some Suc.prems show ?thesis by (auto simp: terminal_def Let_def)
    next
      case False
      show ?thesis
      proof (cases i)
        case 0
        with Some False Suc.prems show ?thesis
          by (auto simp: terminal_def Let_def case_prod_beta)
      next
        case (Suc i')
        with Some False Suc.prems Suc.IH [of i' "Suc k"] show ?thesis
          by (auto simp: terminal_def Let_def case_prod_beta)
      qed
    qed
  qed
qed

text \<open>
  C9. A job identifier that is empty or whose length is not 36 yields the single event
  \<open>invalid_id\<close> and no query of the job table. For an identifier of length 36 the
  stream has at most 600 events from at most 600 queries, and a snapshot with a terminal
  status is always the last event of the stream.
\<close>

theorem C9_progress_stream:
  "(jid = [] \<or> length jid \<noteq> 36 \<longrightarrow> event_generator jid lookup = ([Invalid_id], 0)) \<and>
   (length jid = 36 \<longrightarrow>
      length (fst (event_generator jid lookup)) \<le> 600 \<and>
      snd (event_generator jid lookup) \<le> 600 \<and>
      (\<forall>i < length (fst (event_generator jid lookup)).
         terminal_event (fst (event_generator jid lookup) ! i) \<longrightarrow>
         Suc i = length (fst (event_generator jid lookup))))"
proof (intro conjI impI)
  assume "jid = [] \<or> length jid \<noteq> 36"
  then show "event_generator jid lookup = ([Invalid_id], 0)"
    by (auto simp: event_generator_def)
next
  assume len: "length jid = 36"
  then have eg: "event_generator jid lookup = poll lookup 600 0"
    by (auto simp: event_generator_def)
  show "length (fst (event_generator jid lookup)) \<le> 600"
    using poll_bounds [of lookup 600 0] by (simp add: eg)
  show "snd (event_generator jid lookup) \<le> 600"
    using poll_bounds [of lookup 600 0] by (simp add: eg)
  show "\<forall>i < length (fst (event_generator jid lookup)).
          terminal_event (fst (event_generator jid lookup) ! i) \<longrightarrow>
          Suc i = length (fst (event_generator jid lookup))"
    using poll_terminal_last [of _ lookup 600 0] by (simp add: eg)
qed

theorem C9_progress_stream_witness:
  "event_generator ''invalid-id'' lookup_done = ([Invalid_id], 0) \<and>
   length (fst (event_generator ''123e4567-e89b-12d3-a456-426614174000'' lookup_done)) \<le> 600 \<and>
   fst (event_generator ''123e4567-e89b-12d3-a456-426614174000'' lookup_done) ! 2 =
     Progress Completed 0 0 None \<and>
   length (fst (event_generator ''123e4567-e89b-12d3-a456-426614174000'' lookup_done)) = 3"
proof -
  have short: "length ''invalid-id'' \<noteq> 36" by simp
  have long: "length ''123e4567-e89b-12d3-a456-426614174000'' = 36" by simp
  have ev: "fst (event_generator ''123e4567-e89b-12d3-a456-426614174000'' lookup_done) ! 2 =
              Progress Completed 0 0 None"
    by code_simp
  have two: "2 < length (fst (event_generator ''123e4567-e89b-12d3-a456-426614174000'' lookup_done))"
    by code_simp
  have tev: "terminal_event (Progress Completed 0 0 None)"
    by (simp add: terminal_def)
  from C9_progress_stream [of "''invalid-id''" lookup_done] short
  have a: "event_generator ''invalid-id'' lookup_done = ([Invalid_id], 0)" by blast
  from C9_progress_stream [of "''123e4567-e89b-12d3-a456-426614174000''" lookup_done] long
  have b: "length (fst (event_generator ''123e4567-e89b-12d3-a456-426614174000'' lookup_done)) \<le> 600"
    and c: "\<forall>i < length (fst (event_generator ''123e4567-e89b-12d3-a456-426614174000'' lookup_done)).
         terminal_event (fst (event_generator ''123e4567-e89b-12d3-a456-426614174000'' lookup_done) ! i) \<longrightarrow>
         Suc i = length (fst (event_generator ''123e4567-e89b-12d3-a456-426614174000'' lookup_done))"
    by blast+
  from c two ev tev
  have d: "length (fst (event_generator ''123e4567-e89b-12d3-a456-426614174000'' lookup_done)) = 3"
    by (metis Suc_1 eval_nat_numeral(3))
  from a b ev d show ?thesis by blast
qed
section \<open>Row validation\<close>



section \<open>Checkpoints and the staged file\<close>

text \<open>
  The two guarded commits. When the commit after a fiftieth row raises, one message is
  appended and the error count grows by one. When the commit of line 196 raises, one
  message is appended as well, but the error count grows by the chunk size less the
  rows counted so far in the whole run.
\<close>

lemma count_row_commit_failure:
  assumes "(processed_count st + 1) mod 50 = 0"
    and "commit_error env (ncommit st) = Some e"
  shows "errors (count_row env idx st) =
           errors st @ [''Database error at row '' @ str_int (int idx + 2) @ '': '' @ e]"
    and "error_count (count_row env idx st) = error_count st + 1"
  using assms by (simp_all add: count_row_def commit_def rollback_def record_error_def row_no_def)

lemma process_chunk_commit_failure:
  assumes "st1 = process_rows env cols i (take chunk_size (drop i rows)) st"
    and "commit_error env (ncommit st1) = Some e"
  shows "errors (snd (process_chunk env cols rows i st)) =
           errors st1 @ [''Failed to commit chunk at row '' @ str_int (int i) @ '': '' @ e]"
    and "error_count (snd (process_chunk env cols rows i st)) =
           error_count st1 + (100 - processed_count st1)"
  using assms
  by (simp_all add: process_chunk_def commit_def rollback_def chunk_size_def Let_def
      split: option.splits)

text \<open>
  C6, at a failing input: an upload of two valid rows whose chunk commit (line 196)
  raises. One message is recorded, but the error count of the run is 98, and the job
  ends as completed with errors. When instead the commit of the progress (line 207)
  raises, the exception reaches the handler of line 290 and the job ends as failed,
  although both rows were committed.
\<close>

theorem C6_checkpoint_failure_miscounted:
  "(let r = run_job chunk_commit_fails new_import_job in
      length (errors r) = 1 \<and> error_count r = 98 \<and>
      status (job r) = Completed_with_errors) \<and>
   (let r = run_job progress_commit_fails new_import_job in
      status (job r) = Failed \<and> errors r = [] \<and> length (db_products r) = 2)"
  by code_simp

lemma import_rows_removes_file:
  assumes "import_rows env cols rows st = (None, s)" and "remove_error env = None"
  shows "\<not> file_present s"
  using assms
  by (auto simp: import_rows_def finish_def cleanup_def Let_def
      split: prod.splits option.splits if_splits)

text \<open>
  C7, at a failing input: the upload of the test suite whose header lacks the
  \<open>name\<close> column. The run returns at line 103 with the job failed and the staged file
  still in place; so does a run that ends in the handler of line 290. A run that reaches
  line 281 removes the file.
\<close>

theorem C7_staged_file_kept_on_early_exit:
  "(let r = run_job (base_env missing_name_frame) new_import_job in
      status (job r) = Failed \<and> file_present r) \<and>
   (let r = run_job db_outage new_import_job in
      status (job r) = Failed \<and> file_present r) \<and>
   (let r = run_job (base_env sample_frame) new_import_job in
      status (job r) = Completed \<and> \<not> file_present r)"
  by code_simp
section \<open>The upsert\<close>











section \<open>The counters and the dispatch\<close>

lemma count_row_upsert_counts:
  "counts_ok st \<Longrightarrow> counts_ok (count_row env idx (upsert env sk sl nm ds st))"
  by (auto simp: counts_ok_def count_row_def upsert_def commit_eq rollback_def record_error_def
      tick_def Let_def split: option.splits)

lemma count_row_upsert_undispatched:
  "undispatched st \<Longrightarrow> undispatched (count_row env idx (upsert env sk sl nm ds st))"
  by (auto simp: undispatched_def count_row_def upsert_def commit_eq rollback_def record_error_def
      tick_def Let_def split: option.splits)

lemma process_row_counts: "counts_ok st \<Longrightarrow> counts_ok (process_row env cols idx row st)"
  by (auto simp: process_row_def Let_def count_row_upsert_counts split: option.splits)
     (simp_all add: counts_ok_def record_error_def)

lemma process_row_undispatched:
  "undispatched st \<Longrightarrow> undispatched (process_row env cols idx row st)"
  by (auto simp: process_row_def Let_def count_row_upsert_undispatched split: option.splits)
     (simp_all add: undispatched_def record_error_def)

lemma process_rows_counts: "counts_ok st \<Longrightarrow> counts_ok (process_rows env cols idx rs st)"
  by (induction rs arbitrary: idx st) (simp_all add: process_row_counts)

lemma process_rows_undispatched:
  "undispatched st \<Longrightarrow> undispatched (process_rows env cols idx rs st)"
  by (induction rs arbitrary: idx st) (simp_all add: process_row_undispatched)

lemma process_chunk_counts:
  "counts_ok st \<Longrightarrow> counts_ok (snd (process_chunk env cols rows i st))"
  using process_rows_counts [of st env cols i "take chunk_size (drop i rows)"]
  by (auto simp: process_chunk_def Let_def commit_eq rollback_def counts_ok_def split: option.splits)

lemma process_chunk_undispatched:
  "undispatched st \<Longrightarrow> undispatched (snd (process_chunk env cols rows i st))"
  using process_rows_undispatched [of st env cols i "take chunk_size (drop i rows)"]
  by (auto simp: process_chunk_def Let_def commit_eq rollback_def undispatched_def split: option.splits)

lemma chunk_loop_counts:
  "counts_ok st \<Longrightarrow> counts_ok (snd (chunk_loop env cols rows offs st))"
proof (induction offs arbitrary: st)
  case Nil
  then show ?case by simp
next
  case (Cons i offs)
  from Cons.prems have c: "counts_ok (snd (process_chunk env cols rows i st))"
    by (rule process_chunk_counts)
  show ?case
  proof (cases "process_chunk env cols rows i st")
    case (Pair r s)
    with c Cons.IH [of s] show ?thesis by (cases r) simp_all
  qed
qed

lemma chunk_loop_undispatched:
  "undispatched st \<Longrightarrow> undispatched (snd (chunk_loop env cols rows offs st))"
proof (induction offs arbitrary: st)
  case Nil
  then show ?case by simp
next
  case (Cons i offs)
  from Cons.prems have c: "undispatched (snd (process_chunk env cols rows i st))"
    by (rule process_chunk_undispatched)
  show ?case
  proof (cases "process_chunk env cols rows i st")
    case (Pair r s)
    with c Cons.IH [of s] show ?thesis by (cases r) simp_all
  qed
qed
lemma post_all_data:
  "list_all (\<lambda>a. d_event a = ev \<and> d_data a = pl) (fst (post_all env ev pl ws))"
  by (induction ws) (auto simp: case_prod_beta split: option.splits)

lemma post_all_urls: "map d_url (fst (post_all env ev pl ws)) = map url ws"
  by (induction ws) (auto simp: case_prod_beta split: option.splits)

lemma post_all_ok:
  "list_all (\<lambda>a. d_ok a = (post_error env (d_url a) = None)) (fst (post_all env ev pl ws))"
  by (induction ws) (auto simp: case_prod_beta split: option.splits)

lemma post_all_log:
  "length (snd (post_all env ev pl ws)) = length (filter (\<lambda>w. post_error env (url w) \<noteq> None) ws)"
  by (induction ws) (auto simp: case_prod_beta split: option.splits)

lemma trigger_webhooks_sync_data:
  "list_all (\<lambda>a. d_event a = ev \<and> d_data a = pl) (fst (trigger_webhooks_sync env ev pl))"
  by (auto simp: trigger_webhooks_sync_def Let_def post_all_data split: option.splits)

lemma classify_classified: "classified n (classify env n st)"
  by (simp add: classified_def classify_def Let_def tick_def failed_summary_def partial_summary_def)

lemma cleanup_frame:
  "counts_ok (cleanup env t) = counts_ok t"
  "classified n (cleanup env t) = classified n t"
  "dispatch_ok env (cleanup env t) = dispatch_ok env t"
  "db_job (cleanup env t) = db_job t" "job (cleanup env t) = job t"
  by (simp_all add: cleanup_def counts_ok_def classified_def dispatch_ok_def payload_of_def
            failed_summary_def partial_summary_def split: option.splits)

lemma dispatch_frame:
  "counts_ok (dispatch env t) = counts_ok t"
  "classified n (dispatch env t) = classified n t"
  "db_job (dispatch env t) = db_job t" "job (dispatch env t) = job t"
  by (simp_all add: dispatch_def Let_def case_prod_beta counts_ok_def classified_def
            failed_summary_def partial_summary_def)

lemma dispatch_dispatch_ok:
  assumes "undispatched t" and "status (job t) = Completed \<or> status (job t) = Completed_with_errors"
  shows "dispatch_ok env (dispatch env t)"
  using assms trigger_webhooks_sync_data [of "''product.imported''" "payload_of env t" env]
  by (auto simp: dispatch_def Let_def case_prod_beta dispatch_ok_def undispatched_def payload_of_def)

lemma finish_counts:
  assumes u3: "undispatched s3" and c3: "counts_ok s3"
  shows "case finish env n s3 of
           (Some e, s) \<Rightarrow> undispatched s \<and> counts_ok s
         | (None, s) \<Rightarrow> counts_ok s \<and> dispatch_ok env s \<and> classified n s \<and> db_job s = job s"
proof -
  define s4 where "s4 = (case commit env s3 of
                           (None, t) \<Rightarrow> t
                         | (Some e, t) \<Rightarrow> t\<lparr>log := log t @ [''Final commit error: '' @ e]\<rparr>)"
  have u4: "undispatched s4" and c4: "counts_ok s4"
    using u3 c3 by (auto simp: s4_def commit_eq undispatched_def counts_ok_def split: option.splits)
  define s5 where "s5 = classify env n s4"
  have k5: "classified n s5"
    by (simp add: s5_def classify_classified)
  have u5: "undispatched s5" and c5: "counts_ok s5"
    using u4 c4 by (simp_all add: s5_def classify_def Let_def tick_def undispatched_def counts_ok_def)
  have fin: "finish env n s3 =
     (case commit env s5 of
        (Some e, s6) \<Rightarrow> (Some e, s6)
      | (None, s6) \<Rightarrow>
          (None, cleanup env (if status (job s6) \<in> set [Completed, Completed_with_errors]
                    then dispatch env s6 else s6)))"
    unfolding finish_def Let_def s4_def s5_def by (rule refl)
  show ?thesis
  proof (cases "commit_error env (ncommit s5)")
    case (Some e)
    with u5 c5 show ?thesis
      by (simp add: fin commit_eq undispatched_def counts_ok_def)
  next
    case None
    define s6 where "s6 = snd (commit env s5)"
    have u6: "undispatched s6" and c6: "counts_ok s6" and k6: "classified n s6"
      and d6: "db_job s6 = job s6"
      using u5 c5 k5 None
      by (simp_all add: s6_def commit_eq undispatched_def counts_ok_def classified_def
          failed_summary_def partial_summary_def)
    have res: "finish env n s3 =
          (None, cleanup env (if status (job s6) \<in> set [Completed, Completed_with_errors]
                              then dispatch env s6 else s6))"
      using None by (simp add: fin s6_def commit_eq)
    have "\<not> (status (job s6) = Completed \<or> status (job s6) = Completed_with_errors)
          \<Longrightarrow> dispatch_ok env s6"
      using u6 by (simp add: dispatch_ok_def undispatched_def)
    then show ?thesis
      using c6 k6 d6 dispatch_dispatch_ok [OF u6]
      by (auto simp: res cleanup_frame dispatch_frame)
  qed
qed

lemma import_rows_counts:
  assumes "undispatched st" and "counts_ok st"
  shows "case import_rows env cols rows st of
           (Some e, s) \<Rightarrow> undispatched s \<and> counts_ok s
         | (None, s) \<Rightarrow> counts_ok s \<and> dispatch_ok env s \<and> classified (int (length rows)) s \<and>
                         db_job s = job s"
proof (cases "commit_error env (ncommit st)")
  case (Some e)
  with assms show ?thesis
    by (simp add: import_rows_def Let_def commit_eq undispatched_def counts_ok_def)
next
  case None
  define s2 where "s2 = (snd (commit env (st\<lparr>job := (job st)\<lparr>total_rows := int (length rows), status := Importing\<rparr>\<rparr>)))
     \<lparr>processed_count := 0, created_count := 0, updated_count := 0, error_count := 0, errors := []\<rparr>"
  have u2: "undispatched s2" and c2: "counts_ok s2"
    using assms by (simp_all add: s2_def commit_eq undispatched_def counts_ok_def)
  obtain r s3 where cl: "chunk_loop env cols rows (range_step (length rows) chunk_size) s2 = (r, s3)"
    by (cases "chunk_loop env cols rows (range_step (length rows) chunk_size) s2")
  have u3: "undispatched s3" and c3: "counts_ok s3"
    using chunk_loop_undispatched [OF u2, of env cols rows "range_step (length rows) chunk_size"]
      chunk_loop_counts [OF c2, of env cols rows "range_step (length rows) chunk_size"] cl
    by simp_all
  have ir: "import_rows env cols rows st =
     (case r of Some e \<Rightarrow> (Some e, s3) | None \<Rightarrow> finish env (int (length rows)) s3)"
    using None cl by (simp add: import_rows_def Let_def commit_eq s2_def split: option.splits)
  show ?thesis
  proof (cases r)
    case (Some e)
    with ir u3 c3 show ?thesis by simp
  next
    case rn: None
    with ir finish_counts [OF u3 c3, of env "int (length rows)"] show ?thesis by simp
  qed
qed

lemma classify_status:
  "status (job (classify env n st)) =
     (if 0 < error_count st \<and> processed_count st = 0 then Failed
      else if 0 < error_count st then Completed_with_errors else Completed)"
  by (simp add: classify_def Let_def tick_def)


lemma fail_job_counts:
  assumes "undispatched st" and "counts_ok st"
  shows "undispatched (snd (fail_job env m st))" and "counts_ok (snd (fail_job env m st))"
    and "status (job (snd (fail_job env m st))) = Failed"
  using assms
  by (simp_all add: fail_job_def commit_eq tick_def undispatched_def counts_ok_def)

lemma failed_dispatch_ok:
  "undispatched s \<Longrightarrow> status (job s) = Failed \<Longrightarrow> dispatch_ok env s"
  by (simp add: dispatch_ok_def undispatched_def)

lemma fail_job_result:
  assumes "undispatched st" and "counts_ok st"
  shows "case fail_job env m st of
           (Some e, s) \<Rightarrow> undispatched s \<and> counts_ok s
         | (None, s) \<Rightarrow> counts_ok s \<and> dispatch_ok env s \<and> status (job s) = Failed"
proof (cases "fail_job env m st")
  case (Pair r s)
  with fail_job_counts [OF assms, where env = env and m = m] have "undispatched s" "counts_ok s" "status (job s) = Failed"
    by simp_all
  with Pair show ?thesis by (cases r) (simp_all add: failed_dispatch_ok)
qed

lemma pipeline_counts:
  assumes u: "undispatched st" and c: "counts_ok st"
  shows "case pipeline env st of
           (Some e, s) \<Rightarrow> undispatched s \<and> counts_ok s
         | (None, s) \<Rightarrow> counts_ok s \<and> dispatch_ok env s \<and>
             (status (job s) = Failed \<or>
              (\<exists>cols rows. read_csv env = DataFrame cols rows \<and>
                 classified (int (length rows)) s \<and> db_job s = job s))"
proof -
  obtain r s where cm: "commit env (st\<lparr>job := (job st)\<lparr>status := Parsing\<rparr>\<rparr>) = (r, s)"
    by (cases "commit env (st\<lparr>job := (job st)\<lparr>status := Parsing\<rparr>\<rparr>)")
  have us: "undispatched s" and cs: "counts_ok s"
    using u c cm by (auto simp: commit_eq undispatched_def counts_ok_def)
  show ?thesis
  proof (cases r)
    case (Some e)
    with cm us cs show ?thesis by (simp add: pipeline_def)
  next
    case None
  have fj: "case fail_job env m s of
           (Some e, s) \<Rightarrow> undispatched s \<and> counts_ok s
         | (None, s) \<Rightarrow> counts_ok s \<and> dispatch_ok env s \<and>
             (status (job s) = Failed \<or>
              (\<exists>cols rows. read_csv env = DataFrame cols rows \<and>
                 classified (int (length rows)) s \<and> db_job s = job s))" for m
    using fail_job_result [OF us cs, where env = env and m = m] by (auto split: prod.splits option.splits)
  have pl: "pipeline env st =
     (if \<not> file_present s then
            fail_job env (''File not found at path: '' @ file_path env) s
          else
            (case read_csv env of
               UnicodeDecodeError \<Rightarrow>
                 fail_job env
                   ''CSV encoding error. Please save your CSV as UTF-8 and try again.'' s
             | ParseException e \<Rightarrow>
                 fail_job env
                   (''Failed to parse CSV file: '' @ e @ nl @ nl @ ''Please check:'' @ nl @
                    ''- File is a valid CSV'' @ nl @ ''- File is not corrupted'' @ nl @
                    ''- File encoding is UTF-8'') s
             | DataFrame cols rows \<Rightarrow>
                 let missing_cols = filter (\<lambda>col. col \<notin> set cols) [''sku'', ''name''] in
                 if missing_cols \<noteq> [] then
                   fail_job env
                     (cross_mark @ '' Missing required columns: '' @
                        join '', '' missing_cols @ nl @ nl @
                      ''Required columns: sku, name'' @ nl @
                      ''Found columns: '' @ join '', '' cols @ nl @ nl @
                      ''Please add the missing columns to your CSV and try again.'') s
                 else import_rows env cols rows s))"
    using None cm by (simp add: pipeline_def)
  show ?thesis
  proof (cases "file_present s")
    case False
    with fj show ?thesis by (simp add: pl)
  next
    case True
    show ?thesis
    proof (cases "read_csv env")
      case UnicodeDecodeError
      with True fj show ?thesis by (simp add: pl)
    next
      case (ParseException e)
      with True fj show ?thesis by (simp add: pl)
    next
      case (DataFrame cols rows)
      show ?thesis
      proof (cases "filter (\<lambda>col. col \<notin> set cols) [''sku'', ''name''] = []")
        case False
        with True DataFrame fj show ?thesis by (simp add: pl Let_def)
      next
        case nomiss: True
        with True DataFrame have "pipeline env st = import_rows env cols rows s"
          by (simp add: pl Let_def)
        with import_rows_counts [OF us cs, where env = env and cols = cols and rows = rows] DataFrame show ?thesis
          by (auto split: prod.splits option.splits)
      qed
    qed
  qed
  qed
qed

lemma fatal_handler_counts:
  assumes "undispatched s" and "counts_ok s"
  shows "counts_ok (fatal_handler env e s)" and "dispatch_ok env (fatal_handler env e s)"
    and "status (job (fatal_handler env e s)) = Failed"
proof -
  define st1 where "st1 = (tick s)
            \<lparr>job := (job s)
               \<lparr>status := Failed,
                error_message := Some (cross_mark @ '' Fatal Error: '' @ e @ nl @ nl @
                                       ''Full error details:'' @ nl @ format_exc env e),
                completed_at := Some (now env s)\<rparr>,
             log := log s @ [''Fatal error while processing CSV import'']\<rparr>"
  have fh: "fatal_handler env e s =
      (case commit env st1 of
           (None, t) \<Rightarrow> t
         | (Some db_error, t) \<Rightarrow>
             t\<lparr>log := log t @ [''Failed to update job status in database: '' @ db_error]\<rparr>)"
    unfolding fatal_handler_def Let_def st1_def by (rule refl)
  have p: "undispatched st1" "counts_ok st1" "status (job st1) = Failed"
    using assms by (simp_all add: st1_def tick_def undispatched_def counts_ok_def)
  obtain r t where cm: "commit env st1 = (r, t)" by (cases "commit env st1")
  with p have q: "undispatched t" "counts_ok t" "status (job t) = Failed"
    by (auto simp: commit_eq undispatched_def counts_ok_def)
  have fr: "undispatched (t\<lparr>log := lg\<rparr>) = undispatched t"
    "counts_ok (t\<lparr>log := lg\<rparr>) = counts_ok t" for lg
    by (simp_all add: undispatched_def counts_ok_def)
  from q cm have "undispatched (fatal_handler env e s)" "counts_ok (fatal_handler env e s)"
    "status (job (fatal_handler env e s)) = Failed"
    by (cases r; simp add: fh fr)+
  then show "counts_ok (fatal_handler env e s)" and "dispatch_ok env (fatal_handler env e s)"
    and "status (job (fatal_handler env e s)) = Failed"
    by (simp_all add: failed_dispatch_ok)
qed

lemma init_state_counts: "undispatched (init_state env j)" "counts_ok (init_state env j)"
  by (simp_all add: init_state_def undispatched_def counts_ok_def)

lemma run_job_counts:
  "counts_ok (run_job env j)" "dispatch_ok env (run_job env j)"
  "status (job (run_job env j)) = Failed \<or>
     (\<exists>cols rows. read_csv env = DataFrame cols rows \<and>
        classified (int (length rows)) (run_job env j) \<and>
        db_job (run_job env j) = job (run_job env j))"
proof -
  obtain r s where p: "pipeline env (init_state env j) = (r, s)"
    by (cases "pipeline env (init_state env j)")
  have "counts_ok (run_job env j) \<and> dispatch_ok env (run_job env j) \<and>
     (status (job (run_job env j)) = Failed \<or>
     (\<exists>cols rows. read_csv env = DataFrame cols rows \<and>
        classified (int (length rows)) (run_job env j) \<and>
        db_job (run_job env j) = job (run_job env j)))"
  proof (cases r)
    case None
    with p pipeline_counts [OF init_state_counts [of env j], where env = env] show ?thesis
      by (simp add: run_job_def)
  next
    case (Some e)
    with p pipeline_counts [OF init_state_counts [of env j], where env = env] have "undispatched s" "counts_ok s"
      by simp_all
    from fatal_handler_counts [OF this, where env = env and e = e] Some p show ?thesis
      by (simp add: run_job_def)
  qed
  then show "counts_ok (run_job env j)" "dispatch_ok env (run_job env j)"
  "status (job (run_job env j)) = Failed \<or>
     (\<exists>cols rows. read_csv env = DataFrame cols rows \<and>
        classified (int (length rows)) (run_job env j) \<and>
        db_job (run_job env j) = job (run_job env j))"
    by blast+
qed
section \<open>The invariants of a run\<close>

lemma trace_ok_snoc:
  "trace_ok tr \<Longrightarrow> tr \<noteq> [] \<Longrightarrow> job_step (last tr) j \<Longrightarrow> snapshot_ok j \<Longrightarrow> trace_ok (tr @ [j])"
  by (simp add: trace_ok_def successively_append_iff)

lemma importing_inv_upd:
  "importing_inv n b (st\<lparr>errors := es\<rparr>) = importing_inv n b st"
  "importing_inv n b (st\<lparr>error_count := ec\<rparr>) = importing_inv n b st"
  "importing_inv n b (st\<lparr>processed_count := pc\<rparr>) = importing_inv n b st"
  "importing_inv n b (st\<lparr>log := lg\<rparr>) = importing_inv n b st"
  by (simp_all add: importing_inv_def)

lemma importing_commit:
  "importing_inv n b st \<Longrightarrow> importing_inv n b (snd (commit env st))"
  by (auto simp: importing_inv_def commit_eq trace_ok_def successively_append_iff job_step_def
      terminal_def snapshot_ok_def)

lemma importing_rollback: "importing_inv n b st \<Longrightarrow> importing_inv n b (rollback st)"
  by (auto simp: importing_inv_def rollback_def)

lemma importing_record_error: "importing_inv n b st \<Longrightarrow> importing_inv n b (record_error m st)"
  by (auto simp: importing_inv_def record_error_def)

lemma count_row_upsert_importing:
  "importing_inv n b st \<Longrightarrow> importing_inv n b (count_row env idx (upsert env sk sl nm ds st))"
proof -
  assume a: "importing_inv n b st"
  let ?u = "upsert env sk sl nm ds st"
  let ?v = "?u\<lparr>processed_count := processed_count ?u + 1\<rparr>"
  have u: "importing_inv n b ?v"
    using a by (auto simp: importing_inv_def upsert_def tick_def split: option.splits)
  have c: "importing_inv n b (snd (commit env ?v))"
    using u by (rule importing_commit)
  have r: "importing_inv n b (record_error m (rollback (snd (commit env ?v))))" for m
    using c by (intro importing_record_error importing_rollback)
  show ?thesis
    using u c r
    by (auto simp: count_row_def Let_def split: prod.splits option.splits)
qed

lemma process_row_importing:
  "importing_inv n b st \<Longrightarrow> importing_inv n b (process_row env cols idx row st)"
  by (auto simp: process_row_def Let_def count_row_upsert_importing importing_record_error
      split: option.splits)

lemma process_rows_importing:
  "importing_inv n b st \<Longrightarrow> importing_inv n b (process_rows env cols idx rs st)"
  by (induction rs arbitrary: idx st) (simp_all add: process_row_importing)

lemma process_chunk_importing:
  assumes inv: "importing_inv n (int i + 100) st" and n: "n = int (length rows)"
  shows "case process_chunk env cols rows i st of
           (None, s) \<Rightarrow> importing_inv n (int i + 100) s \<and>
                        processed_rows (job s) = min (int i + 100) n
         | (Some e, s) \<Rightarrow> open_inv s \<and> processed_rows (job s) = min (int i + 100) n"
proof -
  let ?st1 = "process_rows env cols i (take chunk_size (drop i rows)) st"
  have i1: "importing_inv n (int i + 100) ?st1"
    using inv by (rule process_rows_importing)
  define st2 where "st2 = (case commit env ?st1 of
                   (None, s) \<Rightarrow> s
                 | (Some e, s) \<Rightarrow>
                     (rollback s)
                       \<lparr>errors := errors s @
                          [''Failed to commit chunk at row '' @ str_int (int i) @ '': '' @ e],
                        error_count := error_count s + (int chunk_size - processed_count s)\<rparr>)"
  have i2: "importing_inv n (int i + 100) st2"
  proof (cases "commit_error env (ncommit ?st1)")
    case None
    then have "st2 = snd (commit env ?st1)" by (simp add: st2_def commit_eq)
    with i1 show ?thesis by (simp add: importing_commit)
  next
    case (Some e)
    then have "st2 = (rollback (snd (commit env ?st1)))
                       \<lparr>errors := errors (snd (commit env ?st1)) @
                          [''Failed to commit chunk at row '' @ str_int (int i) @ '': '' @ e],
                        error_count := error_count (snd (commit env ?st1)) +
                          (int chunk_size - processed_count (snd (commit env ?st1)))\<rparr>"
      by (simp add: st2_def commit_eq)
    moreover have "importing_inv n (int i + 100) (rollback (snd (commit env ?st1)))"
      using i1 by (intro importing_rollback importing_commit)
    ultimately show ?thesis by (simp add: importing_inv_upd)
  qed
  have pc: "process_chunk env cols rows i st =
      commit env (st2\<lparr>job := (job st2)\<lparr>processed_rows := min (int i + 100) n\<rparr>\<rparr>)"
    by (simp add: process_chunk_def Let_def st2_def n chunk_size_def)
  show ?thesis
    using i2 unfolding pc
    by (auto simp: commit_eq importing_inv_def open_inv_def trace_ok_def
        successively_append_iff job_step_def snapshot_ok_def terminal_def)
qed
lemma open_inv_upd:
  "open_inv (st\<lparr>ncommit := k\<rparr>) = open_inv st"
  "open_inv (st\<lparr>log := lg\<rparr>) = open_inv st"
  by (simp_all add: open_inv_def)

lemma closed_inv_log: "closed_inv env (st\<lparr>log := lg\<rparr>) = closed_inv env st"
  by (simp add: closed_inv_def)

lemma closing_commit:
  assumes o: "open_inv st" and t: "terminal (status (job st))"
    and c: "completed_at (job st) \<noteq> None"
    and f: "forward (status (db_job st)) (status (job st))"
  shows "closed_inv env (snd (commit env st))"
    and "fst (commit env st) \<noteq> None \<longrightarrow> open_inv (snd (commit env st))"
proof -
  have sj: "snapshot_ok (job st)"
    using o t c by (simp add: open_inv_def snapshot_ok_def)
  have js: "job_step (last (db_trace st)) (job st)"
    using o f by (simp add: open_inv_def job_step_def)
  show "closed_inv env (snd (commit env st))"
  proof (cases "commit_error env (ncommit st)")
    case None
    have "trace_ok (db_trace st @ [job st])"
      using o sj js by (intro trace_ok_snoc) (simp_all add: open_inv_def)
    with None t sj show ?thesis
      by (simp add: commit_eq closed_inv_def)
  next
    case (Some e)
    with o t sj show ?thesis
      by (simp add: commit_eq closed_inv_def open_inv_def)
  qed
  show "fst (commit env st) \<noteq> None \<longrightarrow> open_inv (snd (commit env st))"
    using o by (simp add: commit_eq open_inv_upd)
qed

lemma fail_job_trace:
  assumes "open_inv st"
  shows "closed_inv env (snd (fail_job env m st))"
    and "fst (fail_job env m st) \<noteq> None \<longrightarrow> open_inv (snd (fail_job env m st))"
proof -
  let ?st' = "(tick st)\<lparr>job := (job st)
       \<lparr>status := Failed, error_message := Some m, completed_at := Some (now env st)\<rparr>\<rparr>"
  have o: "open_inv ?st'" using assms by (simp add: open_inv_def tick_def)
  have t: "terminal (status (job ?st'))" by (simp add: terminal_def)
  have c: "completed_at (job ?st') \<noteq> None" by simp
  have f: "forward (status (db_job ?st')) (status (job ?st'))"
    using assms by (simp add: open_inv_def forward_def tick_def)
  show "closed_inv env (snd (fail_job env m st))"
    unfolding fail_job_def by (rule closing_commit(1) [OF o t c f])
  show "fst (fail_job env m st) \<noteq> None \<longrightarrow> open_inv (snd (fail_job env m st))"
    unfolding fail_job_def by (rule closing_commit(2) [OF o t c f])
qed

lemma fatal_handler_trace:
  assumes "open_inv st"
  shows "closed_inv env (fatal_handler env e st)"
proof -
  define st1 where "st1 = (tick st)
            \<lparr>job := (job st)
               \<lparr>status := Failed,
                error_message := Some (cross_mark @ '' Fatal Error: '' @ e @ nl @ nl @
                                       ''Full error details:'' @ nl @ format_exc env e),
                completed_at := Some (now env st)\<rparr>,
             log := log st @ [''Fatal error while processing CSV import'']\<rparr>"
  have fh: "fatal_handler env e st =
      (case commit env st1 of
           (None, t) \<Rightarrow> t
         | (Some db_error, t) \<Rightarrow>
             t\<lparr>log := log t @ [''Failed to update job status in database: '' @ db_error]\<rparr>)"
    unfolding fatal_handler_def Let_def st1_def by (rule refl)
  have o: "open_inv st1" using assms by (simp add: open_inv_def tick_def st1_def)
  have t: "terminal (status (job st1))" by (simp add: terminal_def st1_def)
  have c: "completed_at (job st1) \<noteq> None" by (simp add: st1_def)
  have f: "forward (status (db_job st1)) (status (job st1))"
    using assms by (simp add: open_inv_def forward_def tick_def st1_def)
  obtain r s where cm: "commit env st1 = (r, s)" by (cases "commit env st1")
  with closing_commit(1) [OF o t c f, of env] have "closed_inv env s" by simp
  with cm show ?thesis by (cases r) (simp_all add: fh closed_inv_log)
qed

lemma fatal_handler_message:
  "status (job (fatal_handler env e st)) = Failed \<and>
   error_message (job (fatal_handler env e st)) =
     Some (cross_mark @ '' Fatal Error: '' @ e @ nl @ nl @
           ''Full error details:'' @ nl @ format_exc env e)"
proof -
  define st1 where "st1 = (tick st)
            \<lparr>job := (job st)
               \<lparr>status := Failed,
                error_message := Some (cross_mark @ '' Fatal Error: '' @ e @ nl @ nl @
                                       ''Full error details:'' @ nl @ format_exc env e),
                completed_at := Some (now env st)\<rparr>,
             log := log st @ [''Fatal error while processing CSV import'']\<rparr>"
  have fh: "fatal_handler env e st =
      (case commit env st1 of
           (None, t) \<Rightarrow> t
         | (Some db_error, t) \<Rightarrow>
             t\<lparr>log := log t @ [''Failed to update job status in database: '' @ db_error]\<rparr>)"
    unfolding fatal_handler_def Let_def st1_def by (rule refl)
  obtain r s where cm: "commit env st1 = (r, s)" by (cases "commit env st1")
  from commit_frame(1) [OF cm] have "job s = job st1" .
  moreover have "status (job st1) = Failed" "error_message (job st1) =
     Some (cross_mark @ '' Fatal Error: '' @ e @ nl @ nl @
           ''Full error details:'' @ nl @ format_exc env e)"
    by (simp_all add: st1_def)
  ultimately show ?thesis using cm by (cases r) (simp_all add: fh)
qed
lemma importing_inv_mono:
  "importing_inv n b st \<Longrightarrow> b \<le> b' \<Longrightarrow> importing_inv n b' st"
  by (auto simp: importing_inv_def)

lemma importing_inv_total: "importing_inv n b st \<Longrightarrow> importing_inv n n st"
  by (auto simp: importing_inv_def)

lemma importing_open: "importing_inv n b st \<Longrightarrow> open_inv st"
  by (auto simp: importing_inv_def open_inv_def terminal_def)

lemma sorted_range_step: "sorted (range_step n k)"
proof -
  have "sorted_wrt (\<lambda>x y. x * k \<le> y * k) [0 ..< (n + k - 1) div k]"
    by (rule sorted_wrt_mono_rel [OF _ sorted_wrt_upt]) simp
  then show ?thesis
    by (simp add: range_step_def sorted_map)
qed

lemma chunk_loop_importing:
  assumes "importing_inv n b st" and "n = int (length rows)" and "sorted offs"
    and "\<forall>x\<in>set offs. b \<le> int x + 100"
  shows "case chunk_loop env cols rows offs st of
           (None, s) \<Rightarrow> importing_inv n n s
         | (Some e, s) \<Rightarrow> open_inv s"
  using assms
proof (induction offs arbitrary: st b)
  case Nil
  then show ?case by (simp add: importing_inv_total)
next
  case (Cons i offs)
  from Cons.prems have i0: "importing_inv n (int i + 100) st"
    by (auto intro: importing_inv_mono)
  obtain r s where pc: "process_chunk env cols rows i st = (r, s)"
    by (cases "process_chunk env cols rows i st")
  show ?case
  proof (cases r)
    case (Some e)
    with pc process_chunk_importing [OF i0 Cons.prems(2), of env cols] show ?thesis by simp
  next
    case None
    with pc process_chunk_importing [OF i0 Cons.prems(2), of env cols]
    have i1: "importing_inv n (int i + 100) s" by simp
    from Cons.prems(3,4) have "sorted offs" and "\<forall>x\<in>set offs. int i + 100 \<le> int x + 100"
      by auto
    from Cons.IH [OF i1 Cons.prems(2) this] pc None show ?thesis by simp
  qed
qed

lemma closed_inv_frame:
  assumes "job t = job s" and "db_job t = db_job s" and "db_trace t = db_trace s"
    and "ncommit t = ncommit s"
  shows "closed_inv env t = closed_inv env s"
  using assms by (simp add: closed_inv_def)

lemma closed_inv_cleanup: "closed_inv env (cleanup env t) = closed_inv env t"
  by (rule closed_inv_frame) (simp_all add: cleanup_def split: option.splits)

lemma closed_inv_dispatch: "closed_inv env (dispatch env t) = closed_inv env t"
  by (rule closed_inv_frame) (simp_all add: dispatch_def Let_def case_prod_beta)

lemma finish_trace:
  assumes i3: "importing_inv n b s3"
  shows "case finish env n s3 of
           (None, s) \<Rightarrow> closed_inv env s
         | (Some e, s) \<Rightarrow> open_inv s"
proof -
  define s4 where "s4 = (case commit env s3 of
                           (None, t) \<Rightarrow> t
                         | (Some e, t) \<Rightarrow> t\<lparr>log := log t @ [''Final commit error: '' @ e]\<rparr>)"
  have i4: "importing_inv n b s4"
  proof (cases "commit env s3")
    case (Pair r t)
    with importing_commit [OF i3, of env] have "importing_inv n b t" by simp
    with Pair show ?thesis by (cases r) (simp_all add: s4_def importing_inv_upd)
  qed
  define s5 where "s5 = classify env n s4"
  have fin: "finish env n s3 =
     (case commit env s5 of
        (Some e, s6) \<Rightarrow> (Some e, s6)
      | (None, s6) \<Rightarrow>
          (None, cleanup env (if status (job s6) \<in> set [Completed, Completed_with_errors]
                    then dispatch env s6 else s6)))"
    unfolding finish_def Let_def s4_def s5_def by (rule refl)
  have o: "open_inv s5"
    using i4 by (auto simp: s5_def classify_def Let_def tick_def importing_inv_def open_inv_def
        terminal_def)
  have t: "terminal (status (job s5))"
    by (simp add: s5_def classify_status terminal_def)
  have c: "completed_at (job s5) \<noteq> None"
    by (simp add: s5_def classify_def Let_def tick_def)
  have f: "forward (status (db_job s5)) (status (job s5))"
    using i4 by (auto simp: s5_def classify_def Let_def tick_def importing_inv_def forward_def
        terminal_def)
  obtain r s6 where cm: "commit env s5 = (r, s6)" by (cases "commit env s5")
  from closing_commit [OF o t c f, of env] cm
  have cl: "closed_inv env s6" and op: "r \<noteq> None \<longrightarrow> open_inv s6" by simp_all
  from cl op show ?thesis
    by (cases r) (simp_all add: fin cm closed_inv_cleanup closed_inv_dispatch)
qed

lemma import_rows_trace:
  assumes p: "parsing_inv st"
  shows "case import_rows env cols rows st of
           (None, s) \<Rightarrow> closed_inv env s
         | (Some e, s) \<Rightarrow> open_inv s"
proof -
  let ?n = "int (length rows)"
  let ?st' = "st\<lparr>job := (job st)\<lparr>total_rows := ?n, status := Importing\<rparr>\<rparr>"
  obtain r s1 where cm: "commit env ?st' = (r, s1)" by (cases "commit env ?st'")
  show ?thesis
  proof (cases r)
    case (Some e)
    with cm have "s1 = ?st'\<lparr>ncommit := Suc (ncommit ?st')\<rparr>" by (simp add: commit_Some)
    with p have "open_inv s1"
      by (auto simp: parsing_inv_def open_inv_def)
    with Some cm show ?thesis by (simp add: import_rows_def Let_def)
  next
    case None
    with cm have s1: "s1 = ?st'\<lparr>db_job := job ?st', db_products := products ?st',
            db_trace := db_trace ?st' @ [job ?st'], ncommit := Suc (ncommit ?st')\<rparr>"
      by (simp add: commit_None)
    have "trace_ok (db_trace st @ [job ?st'])"
      using p by (intro trace_ok_snoc)
        (auto simp: parsing_inv_def open_inv_def job_step_def forward_def snapshot_ok_def terminal_def)
    with p have i1: "importing_inv ?n 0 s1"
      by (auto simp: s1 importing_inv_def parsing_inv_def open_inv_def)
    define s2 where "s2 = s1\<lparr>processed_count := 0, created_count := 0, updated_count := 0,
                      error_count := 0, errors := []\<rparr>"
    from i1 have i2: "importing_inv ?n 0 s2" by (simp add: s2_def importing_inv_def)
    obtain r' s3 where cl: "chunk_loop env cols rows (range_step (length rows) chunk_size) s2 = (r', s3)"
      by (cases "chunk_loop env cols rows (range_step (length rows) chunk_size) s2")
    have ir: "import_rows env cols rows st =
        (case r' of Some e \<Rightarrow> (Some e, s3) | None \<Rightarrow> finish env ?n s3)"
      using None cm cl by (simp add: import_rows_def Let_def s2_def split: option.splits)
    have "\<forall>x\<in>set (range_step (length rows) chunk_size). (0::int) \<le> int x + 100" by simp
    from chunk_loop_importing [OF i2 refl sorted_range_step this, where env = env and cols = cols] cl
    have r3: "case r' of None \<Rightarrow> importing_inv ?n ?n s3 | Some e \<Rightarrow> open_inv s3"
      by simp
    show ?thesis
    proof (cases r')
      case (Some e)
      with r3 ir show ?thesis by simp
    next
      case rn: None
      with r3 have "importing_inv ?n ?n s3" by simp
      from finish_trace [OF this, of env] ir rn show ?thesis by simp
    qed
  qed
qed
lemma pipeline_cases:
  assumes cm: "commit env (st\<lparr>job := (job st)\<lparr>status := Parsing\<rparr>\<rparr>) = (r, s)"
  shows "(\<exists>e. r = Some e \<and> pipeline env st = (Some e, s)) \<or>
         (r = None \<and> (\<exists>m. pipeline env st = fail_job env m s)) \<or>
         (r = None \<and> (\<exists>cols rows. read_csv env = DataFrame cols rows \<and>
                          pipeline env st = import_rows env cols rows s))"
proof (cases r)
  case (Some e)
  with cm show ?thesis by (simp add: pipeline_def)
next
  case None
  show ?thesis
  proof (cases "file_present s")
    case False
    with None cm show ?thesis by (auto simp: pipeline_def)
  next
    case True
    show ?thesis
    proof (cases "read_csv env")
      case UnicodeDecodeError
      with True None cm show ?thesis by (auto simp: pipeline_def)
    next
      case (ParseException e)
      with True None cm show ?thesis by (auto simp: pipeline_def)
    next
      case (DataFrame cols rows)
      show ?thesis
      proof (cases "filter (\<lambda>col. col \<notin> set cols) [''sku'', ''name''] = []")
        case False
        with True None cm DataFrame have "\<exists>m. pipeline env st = fail_job env m s"
          by (simp add: pipeline_def Let_def del: filter.simps) blast
        with None show ?thesis by blast
      next
        case nomiss: True
        with True None cm DataFrame have "pipeline env st = import_rows env cols rows s"
          by (simp add: pipeline_def Let_def del: filter.simps)
        with None DataFrame show ?thesis by blast
      qed
    qed
  qed
qed

lemma pipeline_trace:
  assumes "fresh j"
  shows "case pipeline env (init_state env j) of
           (None, s) \<Rightarrow> closed_inv env s
         | (Some e, s) \<Rightarrow> open_inv s"
proof -
  let ?st = "init_state env j"
  let ?st' = "?st\<lparr>job := (job ?st)\<lparr>status := Parsing\<rparr>\<rparr>"
  obtain r s where cm: "commit env ?st' = (r, s)" by (cases "commit env ?st'")
  have o0: "open_inv ?st'"
    using assms
    by (simp add: init_state_def open_inv_def fresh_def trace_ok_def snapshot_ok_def terminal_def)
  have rs: "r \<noteq> None \<Longrightarrow> open_inv s"
    using cm o0 by (auto simp: commit_Some open_inv_upd)
  have rn: "r = None \<Longrightarrow> parsing_inv s"
  proof -
    assume "r = None"
    with cm have s: "s = ?st'\<lparr>db_job := job ?st', db_products := products ?st',
            db_trace := db_trace ?st' @ [job ?st'], ncommit := Suc (ncommit ?st')\<rparr>"
      by (simp add: commit_None)
    have "trace_ok (db_trace ?st' @ [job ?st'])"
      using assms o0
      by (intro trace_ok_snoc)
         (auto simp: init_state_def open_inv_def fresh_def job_step_def forward_def
           snapshot_ok_def terminal_def)
    with assms show "parsing_inv s"
      by (simp add: s parsing_inv_def open_inv_def init_state_def fresh_def terminal_def)
  qed
  from pipeline_cases [OF cm] consider
      (raised) e where "r = Some e" "pipeline env ?st = (Some e, s)"
    | (failed) m where "r = None" "pipeline env ?st = fail_job env m s"
    | (rows) cols rows where "r = None" "pipeline env ?st = import_rows env cols rows s"
    by blast
  then show ?thesis
  proof cases
    case raised
    with rs show ?thesis by simp
  next
    case failed
    with rn have "open_inv s" by (simp add: parsing_inv_def)
    from fail_job_trace [OF this, of env m] failed show ?thesis
      by (cases "fail_job env m s") (auto split: option.splits)
  next
    case rows
    with rn import_rows_trace [of s env cols rows] show ?thesis by simp
  qed
qed

lemma run_job_closed: "fresh j \<Longrightarrow> closed_inv env (run_job env j)"
proof -
  assume f: "fresh j"
  obtain r s where p: "pipeline env (init_state env j) = (r, s)"
    by (cases "pipeline env (init_state env j)")
  show ?thesis
  proof (cases r)
    case None
    with p pipeline_trace [OF f, of env] show ?thesis by (simp add: run_job_def)
  next
    case (Some e)
    with p pipeline_trace [OF f, of env] have "open_inv s" by simp
    from fatal_handler_trace [OF this, of env e] p Some show ?thesis
      by (simp add: run_job_def)
  qed
qed

lemma run_job_fatal:
  assumes "pipeline env (init_state env j) = (Some e, s)"
  shows "status (job (run_job env j)) = Failed"
    and "error_message (job (run_job env j)) =
     Some (cross_mark @ '' Fatal Error: '' @ e @ nl @ nl @
           ''Full error details:'' @ nl @ format_exc env e)"
  using assms fatal_handler_message [of env e s] by (simp_all add: run_job_def)

lemma commit_grows: "prefix (db_trace st) (db_trace (snd (commit env st)))"
  by (simp add: commit_eq)

lemma count_row_upsert_grows:
  "prefix (db_trace st) (db_trace (count_row env idx (upsert env sk sl nm ds st)))"
  by (auto simp: count_row_def upsert_def commit_eq rollback_def record_error_def
      tick_def Let_def split: option.splits)

lemma process_row_grows: "prefix (db_trace st) (db_trace (process_row env cols idx row st))"
  by (auto simp: process_row_def Let_def count_row_upsert_grows record_error_def
      split: option.splits)

lemma process_rows_grows: "prefix (db_trace st) (db_trace (process_rows env cols idx rs st))"
proof (induction rs arbitrary: idx st)
  case Nil
  then show ?case by simp
next
  case (Cons row rs)
  from process_row_grows [of st env cols idx row] Cons [of "process_row env cols idx row st" "Suc idx"]
  show ?case by (auto intro: prefix_order.trans)
qed

lemma process_chunk_grows:
  "prefix (db_trace st) (db_trace (snd (process_chunk env cols rows i st)))"
proof -
  let ?st1 = "process_rows env cols i (take chunk_size (drop i rows)) st"
  define st2 where "st2 = (case commit env ?st1 of
                   (None, s) \<Rightarrow> s
                 | (Some e, s) \<Rightarrow>
                     (rollback s)
                       \<lparr>errors := errors s @
                          [''Failed to commit chunk at row '' @ str_int (int i) @ '': '' @ e],
                        error_count := error_count s + (int chunk_size - processed_count s)\<rparr>)"
  have pc: "process_chunk env cols rows i st =
      commit env (st2\<lparr>job := (job st2)
          \<lparr>processed_rows := min (int i + int chunk_size) (int (length rows))\<rparr>\<rparr>)"
    unfolding process_chunk_def Let_def st2_def by (rule refl)
  have a: "prefix (db_trace st) (db_trace ?st1)" by (rule process_rows_grows)
  have b: "prefix (db_trace ?st1) (db_trace st2)"
    by (auto simp: st2_def commit_eq rollback_def split: option.splits)
  have c: "prefix (db_trace st2) (db_trace (snd (process_chunk env cols rows i st)))"
    unfolding pc by (simp add: commit_eq)
  from a b c show ?thesis by (blast intro: prefix_order.trans)
qed

lemma chunk_loop_grows:
  "prefix (db_trace st) (db_trace (snd (chunk_loop env cols rows offs st)))"
proof (induction offs arbitrary: st)
  case Nil
  then show ?case by simp
next
  case (Cons i offs)
  obtain r s where pc: "process_chunk env cols rows i st = (r, s)"
    by (cases "process_chunk env cols rows i st")
  with process_chunk_grows [of st env cols rows i] have a: "prefix (db_trace st) (db_trace s)"
    by simp
  show ?case
  proof (cases r)
    case None
    with pc a Cons [of s] show ?thesis by (auto intro: prefix_order.trans)
  next
    case (Some e)
    with pc a show ?thesis by simp
  qed
qed

lemma finish_grows: "prefix (db_trace st) (db_trace (snd (finish env n st)))"
proof -
  define s4 where "s4 = (case commit env st of
                           (None, t) \<Rightarrow> t
                         | (Some e, t) \<Rightarrow> t\<lparr>log := log t @ [''Final commit error: '' @ e]\<rparr>)"
  define s5 where "s5 = classify env n s4"
  have fin: "finish env n st =
     (case commit env s5 of
        (Some e, s6) \<Rightarrow> (Some e, s6)
      | (None, s6) \<Rightarrow>
          (None, cleanup env (if status (job s6) \<in> set [Completed, Completed_with_errors]
                    then dispatch env s6 else s6)))"
    unfolding finish_def Let_def s4_def s5_def by (rule refl)
  have a: "prefix (db_trace st) (db_trace s4)"
    by (auto simp: s4_def commit_eq split: option.splits)
  have b: "db_trace s5 = db_trace s4"
    by (simp add: s5_def classify_def Let_def tick_def)
  obtain r s6 where cm: "commit env s5 = (r, s6)" by (cases "commit env s5")
  with commit_grows [of s5 env] have c: "prefix (db_trace s5) (db_trace s6)" by simp
  have d: "db_trace (cleanup env t) = db_trace t" "db_trace (dispatch env t) = db_trace t" for t
    by (simp_all add: cleanup_def dispatch_def Let_def case_prod_beta split: option.splits)
  have "prefix (db_trace s6) (db_trace (snd (finish env n st)))"
    using cm by (cases r) (simp_all add: fin d)
  with a b c show ?thesis by (metis prefix_order.trans)
qed

lemma import_rows_grows:
  "prefix (db_trace st) (db_trace (snd (import_rows env cols rows st)))"
proof -
  let ?st' = "st\<lparr>job := (job st)\<lparr>total_rows := int (length rows), status := Importing\<rparr>\<rparr>"
  obtain r s1 where cm: "commit env ?st' = (r, s1)" by (cases "commit env ?st'")
  with commit_grows [of ?st' env] have a: "prefix (db_trace st) (db_trace s1)" by simp
  show ?thesis
  proof (cases r)
    case (Some e)
    with cm a show ?thesis by (simp add: import_rows_def Let_def)
  next
    case None
    define s2 where "s2 = s1\<lparr>processed_count := 0, created_count := 0, updated_count := 0,
                      error_count := 0, errors := []\<rparr>"
    obtain r' s3 where cl: "chunk_loop env cols rows (range_step (length rows) chunk_size) s2 = (r', s3)"
      by (cases "chunk_loop env cols rows (range_step (length rows) chunk_size) s2")
    have ir: "import_rows env cols rows st =
        (case r' of Some e \<Rightarrow> (Some e, s3) | None \<Rightarrow> finish env (int (length rows)) s3)"
      using None cm cl by (simp add: import_rows_def Let_def s2_def split: option.splits)
    from chunk_loop_grows [of s2 env cols rows "range_step (length rows) chunk_size"] cl
    have b: "prefix (db_trace s1) (db_trace s3)" by (simp add: s2_def)
    have "prefix (db_trace s3) (db_trace (snd (import_rows env cols rows st)))"
      using finish_grows [of s3 env "int (length rows)"] by (cases r') (simp_all add: ir)
    with a b show ?thesis by (metis prefix_order.trans)
  qed
qed

lemma pipeline_grows: "prefix (db_trace st) (db_trace (snd (pipeline env st)))"
proof -
  let ?st' = "st\<lparr>job := (job st)\<lparr>status := Parsing\<rparr>\<rparr>"
  obtain r s where cm: "commit env ?st' = (r, s)" by (cases "commit env ?st'")
  with commit_grows [of ?st' env] have a: "prefix (db_trace st) (db_trace s)" by simp
  from pipeline_cases [OF cm] consider
      (raised) e where "r = Some e" "pipeline env st = (Some e, s)"
    | (failed) m where "r = None" "pipeline env st = fail_job env m s"
    | (rows) cols rows where "r = None" "pipeline env st = import_rows env cols rows s"
    by blast
  then show ?thesis
  proof cases
    case raised
    with a show ?thesis by simp
  next
    case failed
    have "prefix (db_trace s) (db_trace (snd (fail_job env m s)))"
      by (simp add: fail_job_def commit_eq tick_def)
    with a failed show ?thesis by (metis prefix_order.trans)
  next
    case rows
    with a import_rows_grows [of s env cols rows] show ?thesis by (metis prefix_order.trans)
  qed
qed

lemma fatal_handler_grows: "prefix (db_trace st) (db_trace (fatal_handler env e st))"
proof -
  define st1 where "st1 = (tick st)
            \<lparr>job := (job st)
               \<lparr>status := Failed,
                error_message := Some (cross_mark @ '' Fatal Error: '' @ e @ nl @ nl @
                                       ''Full error details:'' @ nl @ format_exc env e),
                completed_at := Some (now env st)\<rparr>,
             log := log st @ [''Fatal error while processing CSV import'']\<rparr>"
  have fh: "fatal_handler env e st =
      (case commit env st1 of
           (None, t) \<Rightarrow> t
         | (Some db_error, t) \<Rightarrow>
             t\<lparr>log := log t @ [''Failed to update job status in database: '' @ db_error]\<rparr>)"
    unfolding fatal_handler_def Let_def st1_def by (rule refl)
  have a: "db_trace st1 = db_trace st" by (simp add: st1_def tick_def)
  obtain r t where cm: "commit env st1 = (r, t)" by (cases "commit env st1")
  with commit_grows [of st1 env] a have "prefix (db_trace st) (db_trace t)" by simp
  with cm show ?thesis by (cases r) (simp_all add: fh)
qed

lemma run_job_hd: "hd (db_trace (run_job env j)) = j"
proof -
  obtain r s where p: "pipeline env (init_state env j) = (r, s)"
    by (cases "pipeline env (init_state env j)")
  from pipeline_grows [of "init_state env j" env] p have a: "prefix [j] (db_trace s)"
    by (simp add: init_state_def)
  have "prefix [j] (db_trace (run_job env j))"
  proof (cases r)
    case None
    with p a show ?thesis by (simp add: run_job_def)
  next
    case (Some e)
    with p a fatal_handler_grows [of s env e] show ?thesis
      by (auto simp: run_job_def intro: prefix_order.trans)
  qed
  then show ?thesis by (auto simp: prefix_def)
qed
section \<open>Processed, created and updated rows\<close>

text \<open>
  C10. Every row keeps the count of processed rows equal to the sum of the counts of
  created and of updated rows, and so the equation holds at the end of every run. The
  data of every queued or inline webhook call and of every post has \<open>count\<close> equal to
  \<open>created\<close> plus \<open>updated\<close>, and in the summary of a job that completed with errors
  the figure after \<open>Successfully processed\<close> is the sum of the created and updated
  figures.
\<close>

theorem C10_processed_is_created_plus_updated:
  "(processed_count st = created_count st + updated_count st \<longrightarrow>
      (let st' = process_row env cols idx row st in
         processed_count st' = created_count st' + updated_count st')) \<and>
   (let r = run_job env j in
      processed_count r = created_count r + updated_count r \<and>
      list_all (\<lambda>(ev, pl). pl_count pl = pl_created pl + pl_updated pl) (queued r @ inline r) \<and>
      list_all (\<lambda>a. pl_count (d_data a) = pl_created (d_data a) + pl_updated (d_data a))
        (attempts r) \<and>
      (read_csv env = DataFrame hdr body \<and> status (job r) = Completed_with_errors \<longrightarrow>
         error_message (job r) =
           Some (warning_sign @ '' Import completed with errors'' @ nl @ nl @
                 ''Successfully processed: '' @
                   commas_int (created_count r + updated_count r) @ ''/'' @
                   commas_int (int (length body)) @ '' products'' @ nl @
                 check_mark @ '' Created: '' @ commas_int (created_count r) @ nl @
                 check_mark @ '' Updated: '' @ commas_int (updated_count r) @ nl @
                 cross_mark @ '' Errors: '' @ commas_int (error_count r) @ nl @ nl @
                 error_lines 5 (errors r))))"
proof -
  have row: "processed_count st = created_count st + updated_count st \<longrightarrow>
      (let st' = process_row env cols idx row st in
         processed_count st' = created_count st' + updated_count st')"
    using process_row_counts [of st env cols idx row] by (simp add: counts_ok_def Let_def)
  let ?r = "run_job env j"
  have c: "processed_count ?r = created_count ?r + updated_count ?r"
    using run_job_counts(1) [of env j] by (simp add: counts_ok_def)
  have d: "dispatch_ok env ?r" by (rule run_job_counts(2))
  have pc: "pl_count (payload_of env ?r) =
      pl_created (payload_of env ?r) + pl_updated (payload_of env ?r)"
    using c by (simp add: payload_of_def)
  have q: "list_all (\<lambda>(ev, pl). pl_count pl = pl_created pl + pl_updated pl) (queued ?r @ inline ?r)"
    using d pc by (simp add: dispatch_ok_def)
  have a: "list_all (\<lambda>a. pl_count (d_data a) = pl_created (d_data a) + pl_updated (d_data a))
        (attempts ?r)"
    using d pc by (auto simp: dispatch_ok_def list_all_iff)
  have m: "read_csv env = DataFrame hdr body \<and> status (job ?r) = Completed_with_errors \<longrightarrow>
         error_message (job ?r) =
           Some (warning_sign @ '' Import completed with errors'' @ nl @ nl @
                 ''Successfully processed: '' @
                   commas_int (created_count ?r + updated_count ?r) @ ''/'' @
                   commas_int (int (length body)) @ '' products'' @ nl @
                 check_mark @ '' Created: '' @ commas_int (created_count ?r) @ nl @
                 check_mark @ '' Updated: '' @ commas_int (updated_count ?r) @ nl @
                 cross_mark @ '' Errors: '' @ commas_int (error_count ?r) @ nl @ nl @
                 error_lines 5 (errors ?r))"
  proof
    assume h: "read_csv env = DataFrame hdr body \<and> status (job ?r) = Completed_with_errors"
    with run_job_counts(3) [of env j] have k: "classified (int (length body)) ?r"
      by auto
    from h k have "error_message (job ?r) = Some (partial_summary (int (length body)) ?r)"
      by (auto simp: classified_def split: if_splits)
    then show "error_message (job ?r) =
           Some (warning_sign @ '' Import completed with errors'' @ nl @ nl @
                 ''Successfully processed: '' @
                   commas_int (created_count ?r + updated_count ?r) @ ''/'' @
                   commas_int (int (length body)) @ '' products'' @ nl @
                 check_mark @ '' Created: '' @ commas_int (created_count ?r) @ nl @
                 check_mark @ '' Updated: '' @ commas_int (updated_count ?r) @ nl @
                 cross_mark @ '' Errors: '' @ commas_int (error_count ?r) @ nl @ nl @
                 error_lines 5 (errors ?r))"
      using c by (simp add: partial_summary_def)
  qed
  show ?thesis
    unfolding Let_def
    using conjI [OF row [unfolded Let_def] conjI [OF c conjI [OF q conjI [OF a m]]]] .
qed

theorem C10_processed_is_created_plus_updated_witness:
  "processed_count (process_row (base_env mixed_frame) [''sku'', ''name''] 0
       [Val ''A-1'', Val ''Anvil''] (init_state (base_env mixed_frame) new_import_job)) =
     created_count (process_row (base_env mixed_frame) [''sku'', ''name''] 0
       [Val ''A-1'', Val ''Anvil''] (init_state (base_env mixed_frame) new_import_job)) +
     updated_count (process_row (base_env mixed_frame) [''sku'', ''name''] 0
       [Val ''A-1'', Val ''Anvil''] (init_state (base_env mixed_frame) new_import_job)) \<and>
   processed_count (run_job (base_env mixed_frame) new_import_job) =
     created_count (run_job (base_env mixed_frame) new_import_job) +
     updated_count (run_job (base_env mixed_frame) new_import_job) \<and>
   error_message (job (run_job (base_env mixed_frame) new_import_job)) =
     Some (warning_sign @ '' Import completed with errors'' @ nl @ nl @
           ''Successfully processed: '' @
             commas_int (created_count (run_job (base_env mixed_frame) new_import_job) +
                         updated_count (run_job (base_env mixed_frame) new_import_job)) @ ''/'' @
             commas_int 3 @ '' products'' @ nl @
           check_mark @ '' Created: '' @
             commas_int (created_count (run_job (base_env mixed_frame) new_import_job)) @ nl @
           check_mark @ '' Updated: '' @
             commas_int (updated_count (run_job (base_env mixed_frame) new_import_job)) @ nl @
           cross_mark @ '' Errors: '' @
             commas_int (error_count (run_job (base_env mixed_frame) new_import_job)) @ nl @ nl @
           error_lines 5 (errors (run_job (base_env mixed_frame) new_import_job)))"
proof -
  let ?e = "base_env mixed_frame"
  let ?st = "init_state (base_env mixed_frame) new_import_job"
  let ?body = "[[Val ''A-1'', Val ''Anvil''], [NaN, Val ''Bolt''], [Val ''C-3'', NaN]]"
  note inst = C10_processed_is_created_plus_updated [where st = ?st and env = ?e
      and cols = "[''sku'', ''name'']" and idx = 0 and row = "[Val ''A-1'', Val ''Anvil'']"
      and j = new_import_job and hdr = "[''sku'', ''name'']" and body = ?body,
      unfolded Let_def]
  have h1: "processed_count ?st = created_count ?st + updated_count ?st"
    by (simp add: init_state_def)
  have h2: "read_csv ?e = DataFrame [''sku'', ''name''] ?body"
    by (simp add: base_env_def mixed_frame_def)
  have h3: "status (job (run_job ?e new_import_job)) = Completed_with_errors"
    by code_simp
  have len: "int (length ?body) = 3" by simp
  from inst h1 h2 h3 show ?thesis
    unfolding len by blast
qed
section \<open>The webhook dispatch\<close>

lemma trigger_webhooks_sync_isolated:
  assumes "webhook_query_error env = None"
  shows "map d_url (fst (trigger_webhooks_sync env ev pl)) =
           map url (filter (\<lambda>w. event_type w = ev \<and> enabled w) (stored_webhooks env))"
    and "list_all (\<lambda>a. d_event a = ev \<and> d_data a = pl \<and> d_ok a = (post_error env (d_url a) = None))
           (fst (trigger_webhooks_sync env ev pl))"
    and "length (snd (trigger_webhooks_sync env ev pl)) =
           length (filter (\<lambda>w. post_error env (url w) \<noteq> None)
             (filter (\<lambda>w. event_type w = ev \<and> enabled w) (stored_webhooks env)))"
proof -
  let ?ws = "filter (\<lambda>w. event_type w = ev \<and> enabled w) (stored_webhooks env)"
  have eq: "trigger_webhooks_sync env ev pl = post_all env ev pl ?ws"
    using assms by (cases ?ws) (simp_all add: trigger_webhooks_sync_def Let_def)
  show "map d_url (fst (trigger_webhooks_sync env ev pl)) = map url ?ws"
    by (simp add: eq post_all_urls)
  show "list_all (\<lambda>a. d_event a = ev \<and> d_data a = pl \<and> d_ok a = (post_error env (d_url a) = None))
           (fst (trigger_webhooks_sync env ev pl))"
    using post_all_data [of ev pl env ?ws] post_all_ok [of env ev pl ?ws]
    by (auto simp: eq list_all_iff)
  show "length (snd (trigger_webhooks_sync env ev pl)) =
           length (filter (\<lambda>w. post_error env (url w) \<noteq> None) ?ws)"
    by (simp only: eq post_all_log)
qed

text \<open>
  C8. At the end of every run the webhook dispatch has been invoked exactly once, for
  the event \<open>product.imported\<close> with the job identifier and the counts of processed,
  created, updated and failed rows, when the job is completed or completed with errors,
  and not at all otherwise (so never for a failed job). The dispatcher itself always
  returns: when the query for the listeners succeeds, every enabled listener of the
  event type gets one post with the event and the data, in order, whether or not posts
  to other listeners raised, and each post that raised leaves one line in the log. The
  dispatch leaves the job object, the stored job row and the commits untouched, and it
  is only invoked after the terminal status was committed: when the job object ends
  completed or completed with errors, the stored job row equals it.
\<close>

theorem C8_webhook_dispatch:
  "(let r = run_job env j in
      queued r @ inline r =
        (if status (job r) = Completed \<or> status (job r) = Completed_with_errors
         then [(''product.imported'',
                \<lparr>pl_job_id = job_id env, pl_count = processed_count r,
                 pl_created = created_count r, pl_updated = updated_count r,
                 pl_errors = error_count r\<rparr>)]
         else [])) \<and>
   (webhook_query_error env = None \<longrightarrow>
      (let listeners = filter (\<lambda>w. event_type w = ev \<and> enabled w) (stored_webhooks env);
           posts = fst (trigger_webhooks_sync env ev pl);
           logged = snd (trigger_webhooks_sync env ev pl)
       in map d_url posts = map url listeners \<and>
          list_all (\<lambda>a. d_event a = ev \<and> d_data a = pl \<and>
                         d_ok a = (post_error env (d_url a) = None)) posts \<and>
          length logged = length (filter (\<lambda>w. post_error env (url w) \<noteq> None) listeners))) \<and>
   job (dispatch env st) = job st \<and> db_job (dispatch env st) = db_job st \<and>
   db_trace (dispatch env st) = db_trace st \<and>
   (status (job (run_job env j)) = Completed \<or>
    status (job (run_job env j)) = Completed_with_errors \<longrightarrow>
      db_job (run_job env j) = job (run_job env j))"
proof -
  have a: "queued (run_job env j) @ inline (run_job env j) =
        (if status (job (run_job env j)) = Completed \<or>
            status (job (run_job env j)) = Completed_with_errors
         then [(''product.imported'',
                \<lparr>pl_job_id = job_id env, pl_count = processed_count (run_job env j),
                 pl_created = created_count (run_job env j),
                 pl_updated = updated_count (run_job env j),
                 pl_errors = error_count (run_job env j)\<rparr>)]
         else [])"
    using run_job_counts(2) [of env j] by (simp add: dispatch_ok_def payload_of_def)
  have b: "webhook_query_error env = None \<longrightarrow>
      map d_url (fst (trigger_webhooks_sync env ev pl)) =
        map url (filter (\<lambda>w. event_type w = ev \<and> enabled w) (stored_webhooks env)) \<and>
      list_all (\<lambda>a. d_event a = ev \<and> d_data a = pl \<and>
                         d_ok a = (post_error env (d_url a) = None))
        (fst (trigger_webhooks_sync env ev pl)) \<and>
      length (snd (trigger_webhooks_sync env ev pl)) =
        length (filter (\<lambda>w. post_error env (url w) \<noteq> None)
          (filter (\<lambda>w. event_type w = ev \<and> enabled w) (stored_webhooks env)))"
    using trigger_webhooks_sync_isolated [of env ev pl] by blast
  have c: "job (dispatch env st) = job st \<and> db_job (dispatch env st) = db_job st \<and>
      db_trace (dispatch env st) = db_trace st"
    by (simp add: dispatch_def Let_def case_prod_beta)
  have d: "status (job (run_job env j)) = Completed \<or>
    status (job (run_job env j)) = Completed_with_errors \<longrightarrow>
      db_job (run_job env j) = job (run_job env j)"
    using run_job_counts(3) [of env j] by auto
  show ?thesis
    unfolding Let_def
    using conjI [OF a conjI [OF b conjI [OF conjunct1 [OF c]
      conjI [OF conjunct1 [OF conjunct2 [OF c]] conjI [OF conjunct2 [OF conjunct2 [OF c]] d]]]]] .
qed

theorem C8_webhook_dispatch_witness:
  "queued (run_job hooks_env new_import_job) @ inline (run_job hooks_env new_import_job) =
     [(''product.imported'', sample_payload)] \<and>
   map d_url (fst (trigger_webhooks_sync hooks_env ''product.imported'' sample_payload)) =
     [''https://a.example/hook'', ''https://webhook.site/test''] \<and>
   length (snd (trigger_webhooks_sync hooks_env ''product.imported'' sample_payload)) = 1"
proof -
  note inst = C8_webhook_dispatch [where env = hooks_env and j = new_import_job
      and ev = "''product.imported''" and pl = sample_payload, unfolded Let_def]
  have h: "webhook_query_error hooks_env = None"
    by (simp add: hooks_env_def base_env_def)
  have st: "status (job (run_job hooks_env new_import_job)) = Completed \<and>
            \<lparr>pl_job_id = job_id hooks_env,
             pl_count = processed_count (run_job hooks_env new_import_job),
             pl_created = created_count (run_job hooks_env new_import_job),
             pl_updated = updated_count (run_job hooks_env new_import_job),
             pl_errors = error_count (run_job hooks_env new_import_job)\<rparr> = sample_payload"
    by code_simp
  have ls: "map url (filter (\<lambda>w. event_type w = ''product.imported'' \<and> enabled w)
              (stored_webhooks hooks_env)) =
            [''https://a.example/hook'', ''https://webhook.site/test'']"
    by code_simp
  have fl: "length (filter (\<lambda>w. post_error hooks_env (url w) \<noteq> None)
              (filter (\<lambda>w. event_type w = ''product.imported'' \<and> enabled w)
                (stored_webhooks hooks_env))) = 1"
    by code_simp
  from inst st have a: "queued (run_job hooks_env new_import_job) @
      inline (run_job hooks_env new_import_job) = [(''product.imported'', sample_payload)]"
    by simp
  from inst h ls have b: "map d_url (fst (trigger_webhooks_sync hooks_env ''product.imported''
      sample_payload)) = [''https://a.example/hook'', ''https://webhook.site/test'']"
    by simp
  from inst h fl have c: "length (snd (trigger_webhooks_sync hooks_env ''product.imported''
      sample_payload)) = 1"
    by simp
  from a b c show ?thesis by blast
qed
section \<open>The terminal status\<close>




section \<open>Progress and status over a run\<close>



lemma trace_forward:
  assumes "trace_ok tr"
  shows "successively (\<lambda>a b. forward (status a) (status b) \<or>
                              (status a = status b \<and> \<not> terminal (status a))) tr"
proof -
  from assms have "successively job_step tr" by (simp add: trace_ok_def)
  then show ?thesis
    by (rule successively_mono) (simp add: job_step_def)
qed

lemma trace_completed:
  assumes "trace_ok tr"
  shows "list_all (\<lambda>jb. completed_at jb \<noteq> None \<longleftrightarrow> terminal (status jb)) tr"
  using assms by (auto simp: trace_ok_def snapshot_ok_def list_all_iff)

lemma closed_invD:
  assumes "closed_inv env st"
  shows "terminal (status (job st))" and "snapshot_ok (job st)"
    and "processed_rows (db_job st) \<le> processed_rows (job st)"
    and "last (db_trace st) = db_job st" and "trace_ok (db_trace st)"
    and "commit_error env (ncommit st - 1) = None \<longrightarrow> db_job st = job st"
    and "terminal (status (db_job st)) \<longrightarrow> db_job st = job st"
  using assms unfolding closed_inv_def by blast+

lemma snapshot_okD:
  assumes "snapshot_ok j"
  shows "0 \<le> processed_rows j" and "processed_rows j \<le> total_rows j"
    and "completed_at j \<noteq> None \<longleftrightarrow> terminal (status j)"
  using assms unfolding snapshot_ok_def by blast+


text \<open>
  C2, as the code has it. For a run on a job row as the upload creates it: the job rows
  committed start with the stored row and end with the stored row of the end of the run;
  from one committed row to the next the status stays the same non-terminal status or
  moves along an edge of the graph pending, parsing, importing, then completed,
  completed with errors or failed, with failed entered from any non-terminal status,
  so nothing is committed after a terminal status; every committed row has
  \<open>completed_at\<close> set exactly when its status is terminal, and so has the job object
  at the end, which is always terminal. The stored row ends terminal, equal to the job
  object, whenever the last commit of the run succeeds; it is never terminal otherwise.
  When an exception escapes the pipeline, the job object is failed with a message that
  holds the text of the exception and the traceback.
\<close>

theorem C2_status_progression:
  "(fresh j \<longrightarrow>
      (let r = run_job env j in
         hd (db_trace r) = j \<and> last (db_trace r) = db_job r \<and>
         successively (\<lambda>a b. forward (status a) (status b) \<or>
                              (status a = status b \<and> \<not> terminal (status a))) (db_trace r) \<and>
         list_all (\<lambda>jb. completed_at jb \<noteq> None \<longleftrightarrow> terminal (status jb)) (db_trace r) \<and>
         terminal (status (job r)) \<and> completed_at (job r) \<noteq> None \<and>
         (commit_error env (ncommit r - 1) = None \<longrightarrow> db_job r = job r) \<and>
         (terminal (status (db_job r)) \<longrightarrow> db_job r = job r))) \<and>
   (pipeline env (init_state env j) = (Some e, s) \<longrightarrow>
      status (job (run_job env j)) = Failed \<and>
      error_message (job (run_job env j)) =
        Some (cross_mark @ '' Fatal Error: '' @ e @ nl @ nl @
              ''Full error details:'' @ nl @ format_exc env e))"
proof -
  have a: "fresh j \<longrightarrow>
         hd (db_trace (run_job env j)) = j \<and>
         last (db_trace (run_job env j)) = db_job (run_job env j) \<and>
         successively (\<lambda>a b. forward (status a) (status b) \<or>
                              (status a = status b \<and> \<not> terminal (status a)))
           (db_trace (run_job env j)) \<and>
         list_all (\<lambda>jb. completed_at jb \<noteq> None \<longleftrightarrow> terminal (status jb))
           (db_trace (run_job env j)) \<and>
         terminal (status (job (run_job env j))) \<and> completed_at (job (run_job env j)) \<noteq> None \<and>
         (commit_error env (ncommit (run_job env j) - 1) = None \<longrightarrow>
            db_job (run_job env j) = job (run_job env j)) \<and>
         (terminal (status (db_job (run_job env j))) \<longrightarrow>
            db_job (run_job env j) = job (run_job env j))"
  proof
    assume "fresh j"
    then have c: "closed_inv env (run_job env j)" by (rule run_job_closed)
    then have t: "trace_ok (db_trace (run_job env j))" by (rule closed_invD(5))
    note d = closed_invD [OF c]
    from d(1,3,4,6,7) snapshot_okD [OF d(2)] trace_forward [OF t] trace_completed [OF t]
      run_job_hd [of env j]
    show "hd (db_trace (run_job env j)) = j \<and>
         last (db_trace (run_job env j)) = db_job (run_job env j) \<and>
         successively (\<lambda>a b. forward (status a) (status b) \<or>
                              (status a = status b \<and> \<not> terminal (status a)))
           (db_trace (run_job env j)) \<and>
         list_all (\<lambda>jb. completed_at jb \<noteq> None \<longleftrightarrow> terminal (status jb))
           (db_trace (run_job env j)) \<and>
         terminal (status (job (run_job env j))) \<and> completed_at (job (run_job env j)) \<noteq> None \<and>
         (commit_error env (ncommit (run_job env j) - 1) = None \<longrightarrow>
            db_job (run_job env j) = job (run_job env j)) \<and>
         (terminal (status (db_job (run_job env j))) \<longrightarrow>
            db_job (run_job env j) = job (run_job env j))"
      by blast
  qed
  have b: "pipeline env (init_state env j) = (Some e, s) \<longrightarrow>
      status (job (run_job env j)) = Failed \<and>
      error_message (job (run_job env j)) =
        Some (cross_mark @ '' Fatal Error: '' @ e @ nl @ nl @
              ''Full error details:'' @ nl @ format_exc env e)"
    using run_job_fatal [of env j e s] by blast
  show ?thesis
    unfolding Let_def using conjI [OF a b] .
qed

theorem C2_status_progression_witness:
  "terminal (status (job (run_job (base_env sample_frame) new_import_job))) \<and>
   db_job (run_job (base_env sample_frame) new_import_job) =
     job (run_job (base_env sample_frame) new_import_job) \<and>
   hd (db_trace (run_job (base_env sample_frame) new_import_job)) = new_import_job \<and>
   status (job (run_job db_outage new_import_job)) = Failed"
proof -
  let ?E = "base_env sample_frame"
  have h1: "fresh new_import_job" by (simp add: fresh_def new_import_job_def)
  have h2: "commit_error ?E (ncommit (run_job ?E new_import_job) - 1) = None"
    by (simp add: base_env_def)
  have "fst (pipeline db_outage (init_state db_outage new_import_job)) = Some ''connection lost''"
    by code_simp
  then have h3: "pipeline db_outage (init_state db_outage new_import_job) =
      (Some ''connection lost'', snd (pipeline db_outage (init_state db_outage new_import_job)))"
    by (metis prod.collapse)
  from C2_status_progression [where env = ?E and j = new_import_job, unfolded Let_def] h1 h2
  have a: "terminal (status (job (run_job ?E new_import_job)))"
    and b: "db_job (run_job ?E new_import_job) = job (run_job ?E new_import_job)"
    and c: "hd (db_trace (run_job ?E new_import_job)) = new_import_job"
    by blast+
  from C2_status_progression [where env = db_outage and j = new_import_job
      and e = "''connection lost''"
      and s = "snd (pipeline db_outage (init_state db_outage new_import_job))"] h3
  have d: "status (job (run_job db_outage new_import_job)) = Failed"
    by blast
  from a b c d show ?thesis by blast
qed

text \<open>
  C2 as stated fails. When the database cannot be reached after the job row was read,
  the commit of line 55 raises, the handler of line 290 sets the job object to failed,
  and its own commit (line 302) raises as well, which is logged: the stored job row is
  still pending, with no \<open>completed_at\<close>.
\<close>

theorem C2_stored_job_not_terminal_counterexample:
  "status (db_job (run_job db_outage new_import_job)) = Pending \<and>
   completed_at (db_job (run_job db_outage new_import_job)) = None \<and>
   \<not> terminal (status (db_job (run_job db_outage new_import_job)))"
  by code_simp

end
